theory Spec2Isabelle
  imports Main "HOL-Library.Monad_Syntax"
begin

section \<open>Declarations used from types.h, bitboard.h and variant.h\<close>

text \<open>
  The header files that declare the enumerations, the square and bitboard helpers and the
  variant descriptor are not among the sources. Their enumerators and helper functions are
  therefore parameters of the model: one record holds every constant and helper that
  apiutil.h names, and every function below that needs one takes the record as its first
  argument. A piece type, a piece and a square are enumeration values (numbers); a bitboard
  is the set of the squares whose bit is set.
\<close>

datatype Color = WHITE | BLACK

type_synonym PieceType = nat
type_synonym Piece = nat
type_synonym Square = int
type_synonym Bitboard = "Square set"
type_synonym Value = int

record types_h =
  PAWN :: PieceType
  BISHOP :: PieceType
  ROOK :: PieceType
  QUEEN :: PieceType
  FERS :: PieceType
  ALFIL :: PieceType
  FERS_ALFIL :: PieceType
  SILVER :: PieceType
  ARCHBISHOP :: PieceType
  CHANCELLOR :: PieceType
  GOLD :: PieceType
  ELEPHANT :: PieceType
  COMMONER :: PieceType
  CENTAUR :: PieceType
  KING :: PieceType
  ALL_PIECES :: PieceType
  VALUE_NONE :: Value
  VALUE_DRAW :: Value
  DarkSquares :: Bitboard
  type_of :: "Piece \<Rightarrow> PieceType"
  make_piece :: "Color \<Rightarrow> PieceType \<Rightarrow> Piece"
  file_of :: "Square \<Rightarrow> int"
  rank_of :: "Square \<Rightarrow> int"
  relative_rank :: "Color \<Rightarrow> Square \<Rightarrow> int \<Rightarrow> int"
  is_ok :: "Square \<Rightarrow> bool"
  file_bb :: "Square \<Rightarrow> Bitboard"
  rank_bb :: "Square \<Rightarrow> Bitboard"
  forward_file_bb :: "Color \<Rightarrow> Square \<Rightarrow> Bitboard"

text \<open>The fields of \<open>struct Variant\<close> that apiutil.h reads.\<close>

record Variant =
  variantTemplate :: string
  pieceToChar :: string
  maxRank :: int
  maxFile :: int
  startFen :: string
  pieceDrops :: bool
  pieceTypes :: "PieceType set"
  extinctionPieceTypes :: "PieceType set"
  castling :: bool
  chess960 :: bool
  doubleStep :: bool

text \<open>
  A pair indexed by a colour stands for \<open>std::array<T, 2>\<close> (\<open>WHITE\<close> is index 0).
\<close>

fun at_color :: "Color \<Rightarrow> 'a \<times> 'a \<Rightarrow> 'a" where
  "at_color WHITE p = fst p"
| "at_color BLACK p = snd p"

section \<open>C library and container primitives\<close>

text \<open>
  The character classification functions of \<open><cctype>\<close> in the "C" locale, on bytes.
\<close>

definition isdigit :: "char \<Rightarrow> bool" where
  "isdigit c = (48 \<le> (of_char c :: int) \<and> (of_char c :: int) \<le> 57)"

definition isupper :: "char \<Rightarrow> bool" where
  "isupper c = (65 \<le> (of_char c :: int) \<and> (of_char c :: int) \<le> 90)"

definition islower :: "char \<Rightarrow> bool" where
  "islower c = (97 \<le> (of_char c :: int) \<and> (of_char c :: int) \<le> 122)"

definition isalpha :: "char \<Rightarrow> bool" where
  "isalpha c = (isupper c \<or> islower c)"

definition tolower :: "char \<Rightarrow> char" where
  "tolower c = (if isupper c then char_of ((of_char c :: int) + 32) else c)"

definition toupper :: "char \<Rightarrow> char" where
  "toupper c = (if islower c then char_of ((of_char c :: int) - 32) else c)"

text \<open>\<open>c - '0'\<close>\<close>

definition digit_value :: "char \<Rightarrow> int" where
  "digit_value c = of_char c - 48"

text \<open>
  Indexing. \<open>None\<close> stands for a run of the C++ code that has no defined result: an index
  out of range or a failed \<open>assert\<close>. \<open>std::string::operator[]\<close> at the position
  \<open>size()\<close> is defined and yields the null character; \<open>std::vector::operator[]\<close> is
  defined below \<open>size()\<close> only.
\<close>

definition string_at :: "string \<Rightarrow> nat \<Rightarrow> char option" where
  "string_at s i =
     (if i < length s then Some (s ! i)
      else if i = length s then Some (char_of (0::int))
      else None)"

definition vector_at :: "'a list \<Rightarrow> nat \<Rightarrow> 'a option" where
  "vector_at xs i = (if i < length xs then Some (xs ! i) else None)"

section \<open>FEN validation: result codes and the character board\<close>

datatype FenValidation =
    FEN_MISSING_SPACE_DELIM
  | FEN_INVALID_NB_PARTS
  | FEN_INVALID_CHAR
  | FEN_TOUCHING_KINGS
  | FEN_INVALID_BOARD_GEOMETRY
  | FEN_INVALID_POCKET_INFO
  | FEN_INVALID_SIDE_TO_MOVE
  | FEN_INVALID_CASTLING_INFO
  | FEN_INVALID_EN_PASSANT_SQ
  | FEN_INVALID_NUMBER_OF_KINGS
  | FEN_INVALID_HALF_MOVE_COUNTER
  | FEN_INVALID_MOVE_COUNTER
  | FEN_EMPTY
  | FEN_OK

fun FenValidation_code :: "FenValidation \<Rightarrow> int" where
  "FenValidation_code FEN_MISSING_SPACE_DELIM = -12"
| "FenValidation_code FEN_INVALID_NB_PARTS = -11"
| "FenValidation_code FEN_INVALID_CHAR = -10"
| "FenValidation_code FEN_TOUCHING_KINGS = -9"
| "FenValidation_code FEN_INVALID_BOARD_GEOMETRY = -8"
| "FenValidation_code FEN_INVALID_POCKET_INFO = -7"
| "FenValidation_code FEN_INVALID_SIDE_TO_MOVE = -6"
| "FenValidation_code FEN_INVALID_CASTLING_INFO = -5"
| "FenValidation_code FEN_INVALID_EN_PASSANT_SQ = -4"
| "FenValidation_code FEN_INVALID_NUMBER_OF_KINGS = -3"
| "FenValidation_code FEN_INVALID_HALF_MOVE_COUNTER = -2"
| "FenValidation_code FEN_INVALID_MOVE_COUNTER = -1"
| "FenValidation_code FEN_EMPTY = 0"
| "FenValidation_code FEN_OK = 1"

datatype Validation = NOK | OK

datatype CastlingRights = KING_SIDE | QUEEN_SIDE

record CharSquare =
  rowIdx :: int
  fileIdx :: int

text \<open>The default constructor of \<open>CharSquare\<close>.\<close>

definition CharSquare_none :: CharSquare where
  "CharSquare_none = \<lparr>rowIdx = -1, fileIdx = -1\<rparr>"

text \<open>
  \<open>pow\<close> works on doubles and the sum is converted back to \<open>int\<close>; on differences of
  board indices both are exact, so the model computes in the integers.
\<close>

definition non_root_euclidian_distance :: "CharSquare \<Rightarrow> CharSquare \<Rightarrow> int" where
  "non_root_euclidian_distance s1 s2 =
     (rowIdx s1 - rowIdx s2) ^ 2 + (fileIdx s1 - fileIdx s2) ^ 2"

record CharBoard =
  nbRanks :: int
  nbFiles :: int
  board :: "char list"

text \<open>The constructor of \<open>CharBoard\<close>, with its assertion.\<close>

definition new_CharBoard :: "int \<Rightarrow> int \<Rightarrow> CharBoard option" where
  "new_CharBoard r f =
     (if f > 0 \<and> r > 0
      then Some \<lparr>nbRanks = r, nbFiles = f, board = replicate (nat (r * f)) (CHR '' '')\<rparr>
      else None)"

definition set_piece :: "CharBoard \<Rightarrow> int \<Rightarrow> int \<Rightarrow> char \<Rightarrow> CharBoard option" where
  "set_piece b rankIdx fIdx c =
     (let i = rankIdx * nbFiles b + fIdx
      in if 0 \<le> i \<and> i < int (length (board b))
         then Some (b\<lparr>board := (board b)[nat i := c]\<rparr>)
         else None)"

definition get_piece :: "CharBoard \<Rightarrow> int \<Rightarrow> int \<Rightarrow> char option" where
  "get_piece b rIdx fIdx =
     (let i = rIdx * nbFiles b + fIdx
      in if 0 \<le> i \<and> i < int (length (board b)) then Some (board b ! nat i) else None)"

text \<open>
  The two nested loops (\<open>r\<close> outside, \<open>c\<close> inside) of the scanning member functions visit
  the squares in this order. Every read of such a scan is in range, see
  \<open>get_piece_in_range\<close> below.
\<close>

definition scan_order :: "CharBoard \<Rightarrow> (int \<times> int) list" where
  "scan_order b = List.product [0..nbRanks b - 1] [0..nbFiles b - 1]"

definition get_square_for_piece :: "CharBoard \<Rightarrow> char \<Rightarrow> CharSquare" where
  "get_square_for_piece b piece =
     (case find (\<lambda>(r, c). get_piece b r c = Some piece) (scan_order b) of
        None \<Rightarrow> CharSquare_none
      | Some (r, c) \<Rightarrow> \<lparr>rowIdx = r, fileIdx = c\<rparr>)"

definition get_squares_for_piece :: "CharBoard \<Rightarrow> char \<Rightarrow> CharSquare list" where
  "get_squares_for_piece b piece =
     map (\<lambda>(r, c). \<lparr>rowIdx = r, fileIdx = c\<rparr>)
       (filter (\<lambda>(r, c). get_piece b r c = Some piece) (scan_order b))"

fun is_piece_on_rank_loop :: "CharBoard \<Rightarrow> char \<Rightarrow> int \<Rightarrow> int list \<Rightarrow> bool option" where
  "is_piece_on_rank_loop b piece rIdx [] = Some False"
| "is_piece_on_rank_loop b piece rIdx (f # fs) =
     (case get_piece b rIdx f of
        None \<Rightarrow> None
      | Some c \<Rightarrow> if c = piece then Some True else is_piece_on_rank_loop b piece rIdx fs)"

definition is_piece_on_rank :: "CharBoard \<Rightarrow> char \<Rightarrow> int \<Rightarrow> bool option" where
  "is_piece_on_rank b piece rIdx = is_piece_on_rank_loop b piece rIdx [0..nbFiles b - 1]"

section \<open>FEN validation: the single checks\<close>

fun check_for_valid_characters :: "string \<Rightarrow> string \<Rightarrow> Variant \<Rightarrow> Validation" where
  "check_for_valid_characters [] validSpecialCharacters v = OK"
| "check_for_valid_characters (c # cs) validSpecialCharacters v =
     (if \<not> isdigit c \<and> c \<notin> set (pieceToChar v) \<and> c \<notin> set validSpecialCharacters
      then NOK
      else check_for_valid_characters cs validSpecialCharacters v)"

text \<open>
  \<open>get_fen_parts\<close> reads with \<open>std::getline\<close> until a read extracts nothing: a delimiter
  ends a part, also an empty one, and the end of the text ends a part only if the part has
  at least one character. The second argument of the loop is the part read so far.
\<close>

fun getline_loop :: "char \<Rightarrow> string \<Rightarrow> string \<Rightarrow> string list" where
  "getline_loop delim curPart [] = (if curPart = [] then [] else [curPart])"
| "getline_loop delim curPart (c # cs) =
     (if c = delim then curPart # getline_loop delim [] cs
      else getline_loop delim (curPart @ [c]) cs)"

definition get_fen_parts :: "string \<Rightarrow> char \<Rightarrow> string list" where
  "get_fen_parts fullFen delim = getline_loop delim [] fullFen"

text \<open>
  The loop of \<open>fill_char_board\<close> over the characters of the board field, with the state
  \<open>rankIdx\<close>, \<open>fileIdx\<close>, \<open>prevChar\<close> and the board. It yields \<open>NOK\<close> where the source
  returns from inside the loop, and \<open>OK\<close> with the rank index where the loop ends or breaks.
\<close>

fun fill_loop ::
  "Variant \<Rightarrow> string \<Rightarrow> string \<Rightarrow> int \<Rightarrow> int \<Rightarrow> char \<Rightarrow> CharBoard
     \<Rightarrow> (Validation \<times> int \<times> CharBoard) option" where
  "fill_loop v special [] rankIdx fIdx prevChar b = Some (OK, rankIdx, b)"
| "fill_loop v special (c # cs) rankIdx fIdx prevChar b =
     (if c = CHR '' '' \<or> c = CHR ''[''
      then Some (OK, rankIdx, b)
      else if isdigit c
      then fill_loop v special cs rankIdx
             (fIdx + digit_value c + (if isdigit prevChar then 9 * digit_value prevChar else 0))
             c b
      else if c = CHR ''/''
      then (if fIdx \<noteq> nbFiles b then Some (NOK, rankIdx + 1, b)
            else if rankIdx + 1 = nbRanks b then Some (OK, rankIdx + 1, b)
            else fill_loop v special cs (rankIdx + 1) 0 c b)
      else if c \<notin> set special
      then (if fIdx = nbFiles b then Some (NOK, rankIdx, b)
            else case set_piece b (maxRank v - rankIdx) fIdx c of
                   None \<Rightarrow> None
                 | Some b' \<Rightarrow> fill_loop v special cs rankIdx (fIdx + 1) c b')
      else fill_loop v special cs rankIdx fIdx c b)"

definition fill_char_board ::
  "CharBoard \<Rightarrow> string \<Rightarrow> string \<Rightarrow> Variant \<Rightarrow> (Validation \<times> CharBoard) option" where
  "fill_char_board b fenBoard validSpecialCharacters v =
     (case fill_loop v validSpecialCharacters fenBoard 0 0 (CHR ''?'') b of
        None \<Rightarrow> None
      | Some (NOK, rankIdx, b') \<Rightarrow> Some (NOK, b')
      | Some (OK, rankIdx, b') \<Rightarrow>
          if pieceDrops v
          then (if rankIdx + 1 \<noteq> nbRanks b' \<and> rankIdx \<noteq> nbRanks b'
                then Some (NOK, b') else Some (OK, b'))
          else (if rankIdx + 1 \<noteq> nbRanks b' then Some (NOK, b') else Some (OK, b')))"

fun fill_castling_info_splitted ::
  "string \<Rightarrow> string \<times> string \<Rightarrow> Validation \<times> (string \<times> string)" where
  "fill_castling_info_splitted [] castlingInfoSplitted = (OK, castlingInfoSplitted)"
| "fill_castling_info_splitted (c # cs) castlingInfoSplitted =
     (if c \<noteq> CHR ''-''
      then (if \<not> isalpha c then (NOK, castlingInfoSplitted)
            else if isupper c
            then fill_castling_info_splitted cs
                   (fst castlingInfoSplitted @ [tolower c], snd castlingInfoSplitted)
            else fill_castling_info_splitted cs
                   (fst castlingInfoSplitted, snd castlingInfoSplitted @ [c]))
      else fill_castling_info_splitted cs castlingInfoSplitted)"

fun check_960_castling_loop ::
  "string \<times> string \<Rightarrow> CharBoard \<Rightarrow> CharSquare \<times> CharSquare \<Rightarrow> (Color \<times> char) list
     \<Rightarrow> Validation option" where
  "check_960_castling_loop castlingInfoSplitted b kingPositionsStart [] = Some OK"
| "check_960_castling_loop castlingInfoSplitted b kingPositionsStart ((color, charPiece) # rest) =
     (if length (at_color color castlingInfoSplitted) = 0
      then check_960_castling_loop castlingInfoSplitted b kingPositionsStart rest
      else
        let rank = rowIdx (at_color color kingPositionsStart);
            charPiece' = (if color = BLACK then tolower charPiece else charPiece)
        in case is_piece_on_rank b charPiece' rank of
             None \<Rightarrow> None
           | Some False \<Rightarrow> Some NOK
           | Some True \<Rightarrow> check_960_castling_loop castlingInfoSplitted b kingPositionsStart rest)"

definition check_960_castling ::
  "string \<times> string \<Rightarrow> CharBoard \<Rightarrow> CharSquare \<times> CharSquare \<Rightarrow> Validation option" where
  "check_960_castling castlingInfoSplitted b kingPositionsStart =
     check_960_castling_loop castlingInfoSplitted b kingPositionsStart
       (List.product [WHITE, BLACK] [CHR ''K'', CHR ''R''])"

definition check_touching_kings :: "CharBoard \<Rightarrow> CharSquare \<times> CharSquare \<Rightarrow> Validation" where
  "check_touching_kings b kingPositions =
     (if non_root_euclidian_distance (at_color WHITE kingPositions) (at_color BLACK kingPositions) \<le> 2
      then NOK else OK)"

text \<open>
  The inner loop of \<open>check_standard_castling\<close> over \<open>{KING_SIDE, QUEEN_SIDE}\<close>. The rook's
  starting square is read from the vector before the castling letter is looked for.
\<close>

fun check_standard_castling_sides ::
  "string \<Rightarrow> CharBoard \<Rightarrow> Color \<Rightarrow> CharSquare list \<Rightarrow> CastlingRights list \<Rightarrow> Validation option" where
  "check_standard_castling_sides info b c rooksStart [] = Some OK"
| "check_standard_castling_sides info b c rooksStart (side # rest) =
     (case (if side = QUEEN_SIDE then vector_at rooksStart 0 else vector_at rooksStart 1) of
        None \<Rightarrow> None
      | Some rookStartingSquare \<Rightarrow>
          let targetChar = (if side = QUEEN_SIDE then CHR ''q'' else CHR ''k'');
              rookChar = (if c = BLACK then tolower (CHR ''R'') else CHR ''R'')
          in if targetChar \<in> set info
             then (case get_piece b (rowIdx rookStartingSquare) (fileIdx rookStartingSquare) of
                     None \<Rightarrow> None
                   | Some p \<Rightarrow>
                       if p \<noteq> rookChar then Some NOK
                       else check_standard_castling_sides info b c rooksStart rest)
             else check_standard_castling_sides info b c rooksStart rest)"

fun check_standard_castling_loop ::
  "string \<times> string \<Rightarrow> CharBoard \<Rightarrow> CharSquare \<times> CharSquare \<Rightarrow> CharSquare \<times> CharSquare
     \<Rightarrow> CharSquare list \<times> CharSquare list \<Rightarrow> Color list \<Rightarrow> Validation option" where
  "check_standard_castling_loop info b kingPositions kingPositionsStart rookPositionsStart [] = Some OK"
| "check_standard_castling_loop info b kingPositions kingPositionsStart rookPositionsStart (c # cs) =
     (if length (at_color c info) = 0
      then check_standard_castling_loop info b kingPositions kingPositionsStart rookPositionsStart cs
      else if at_color c kingPositions \<noteq> at_color c kingPositionsStart then Some NOK
      else case check_standard_castling_sides (at_color c info) b c
                  (at_color c rookPositionsStart) [KING_SIDE, QUEEN_SIDE] of
             None \<Rightarrow> None
           | Some NOK \<Rightarrow> Some NOK
           | Some OK \<Rightarrow>
               check_standard_castling_loop info b kingPositions kingPositionsStart
                 rookPositionsStart cs)"

definition check_standard_castling ::
  "string \<times> string \<Rightarrow> CharBoard \<Rightarrow> CharSquare \<times> CharSquare \<Rightarrow> CharSquare \<times> CharSquare
     \<Rightarrow> CharSquare list \<times> CharSquare list \<Rightarrow> Validation option" where
  "check_standard_castling info b kingPositions kingPositionsStart rookPositionsStart =
     check_standard_castling_loop info b kingPositions kingPositionsStart rookPositionsStart
       [WHITE, BLACK]"

text \<open>
  The loop of \<open>check_pocket_info\<close> over the board field read backwards.
\<close>

fun check_pocket_info_loop ::
  "Variant \<Rightarrow> char \<Rightarrow> string \<Rightarrow> string \<times> string \<Rightarrow> Validation \<times> (string \<times> string)" where
  "check_pocket_info_loop v stopChar [] pockets = (NOK, pockets)"
| "check_pocket_info_loop v stopChar (c # cs) pockets =
     (if c = stopChar then (OK, pockets)
      else if c \<noteq> CHR ''-''
      then (if c \<notin> set (pieceToChar v) then (NOK, pockets)
            else if isupper c
            then check_pocket_info_loop v stopChar cs (fst pockets @ [tolower c], snd pockets)
            else check_pocket_info_loop v stopChar cs (fst pockets, snd pockets @ [c]))
      else check_pocket_info_loop v stopChar cs pockets)"

definition check_pocket_info ::
  "string \<Rightarrow> int \<Rightarrow> Variant \<Rightarrow> string \<times> string \<Rightarrow> (Validation \<times> (string \<times> string)) option" where
  "check_pocket_info fenBoard nbRanks' v pockets =
     (if int (count_list fenBoard (CHR ''/'')) = nbRanks'
      then Some (check_pocket_info_loop v (CHR ''/'') (rev fenBoard) pockets)
      else if fenBoard = [] then None
      else if last fenBoard \<noteq> CHR '']'' then Some (NOK, pockets)
      else Some (check_pocket_info_loop v (CHR ''['') (drop 1 (rev fenBoard)) pockets))"

definition check_number_of_kings :: "types_h \<Rightarrow> string \<Rightarrow> Variant \<Rightarrow> Validation option" where
  "check_number_of_kings t fenBoard v =
     do {
       k \<leftarrow> string_at (pieceToChar v) (KING t);
       let nbWhiteKings = count_list fenBoard (toupper k);
           nbBlackKings = count_list fenBoard (tolower k)
       in Some (if nbWhiteKings \<noteq> 1 then NOK else if nbBlackKings \<noteq> 1 then NOK else OK)
     }"

definition check_en_passant_square :: "string \<Rightarrow> Validation option" where
  "check_en_passant_square enPassantInfo =
     do {
       firstChar \<leftarrow> string_at enPassantInfo 0;
       if firstChar \<noteq> CHR ''-''
       then (if length enPassantInfo \<noteq> 2 then Some NOK
             else if isdigit firstChar then Some NOK
             else do {
               secondChar \<leftarrow> string_at enPassantInfo 1;
               if \<not> isdigit secondChar then Some NOK else Some OK
             })
       else Some OK
     }"

definition no_king_piece_in_pockets :: "string \<times> string \<Rightarrow> bool" where
  "no_king_piece_in_pockets pockets =
     (CHR ''k'' \<notin> set (at_color WHITE pockets) \<and> CHR ''k'' \<notin> set (at_color BLACK pockets))"

definition check_digit_field :: "string \<Rightarrow> Validation" where
  "check_digit_field field =
     (if length field = 1 \<and> field ! 0 = CHR ''-'' then OK
      else if list_all isdigit field then OK
      else NOK)"

section \<open>FEN validation: \<open>validate_fen\<close>\<close>

text \<open>
  \<open>validate_fen\<close> is one sequence of checks that returns at the first violated one. The
  model cuts the sequence at the comments of the source into five parts, each of which
  either returns a code or continues with the values the later parts read.
\<close>

datatype 'a step = Return FenValidation | Continue 'a

definition validSpecialCharacters :: string where
  "validSpecialCharacters = ''/+~[]-''"

text \<open>
  "0) Layout": empty text, missing space, number of parts. \<open>nbFenParts\<close> and
  \<open>topThreshold\<close> are \<open>unsigned int\<close>.
\<close>

definition fen_layout :: "string \<Rightarrow> Variant \<Rightarrow> string list step" where
  "fen_layout fen v =
     (if length fen = 0 then Return FEN_EMPTY
      else if CHR '' '' \<notin> set fen then Return FEN_MISSING_SPACE_DELIM
      else
        let fenParts = get_fen_parts fen (CHR '' '');
            starFenParts = get_fen_parts (startFen v) (CHR '' '');
            nbFenParts = int (length starFenParts) mod 2 ^ 32;
            maxNumberFenParts = 7;
            topThreshold = min ((nbFenParts + 2) mod 2 ^ 32) maxNumberFenParts
        in if int (length fenParts) < nbFenParts \<or> int (length fenParts) > topThreshold
           then Return FEN_INVALID_NB_PARTS
           else Continue fenParts)"

text \<open>"1) Part": valid characters, board geometry, pockets.\<close>

definition fen_board ::
  "string list \<Rightarrow> Variant \<Rightarrow> (CharBoard \<times> (string \<times> string)) step option" where
  "fen_board fenParts v =
     do {
       part0 \<leftarrow> vector_at fenParts 0;
       if check_for_valid_characters part0 validSpecialCharacters v = NOK
       then Some (Return FEN_INVALID_CHAR)
       else do {
         b0 \<leftarrow> new_CharBoard (maxRank v + 1) (maxFile v + 1);
         (filled, b) \<leftarrow> fill_char_board b0 part0 validSpecialCharacters v;
         if filled = NOK then Some (Return FEN_INVALID_BOARD_GEOMETRY)
         else if pieceDrops v
         then do {
           (pocketsOk, pockets) \<leftarrow> check_pocket_info part0 (maxRank v + 1) v ([], []);
           if pocketsOk = NOK then Some (Return FEN_INVALID_POCKET_INFO)
           else Some (Continue (b, pockets))
         }
         else Some (Continue (b, ([], [])))
       }
     }"

text \<open>"3) Part": the castling rights, inside the block of the king checks.\<close>

definition fen_castling ::
  "types_h \<Rightarrow> string list \<Rightarrow> CharBoard \<Rightarrow> CharSquare \<times> CharSquare \<Rightarrow> Variant
     \<Rightarrow> unit step option" where
  "fen_castling t fenParts b kingPositions v =
     (if castling v
      then do {
        part2 \<leftarrow> vector_at fenParts 2;
        let (splitOk, castlingInfoSplitted) = fill_castling_info_splitted part2 ([], [])
        in if splitOk = NOK then Some (Return FEN_INVALID_CASTLING_INFO)
           else if length (at_color WHITE castlingInfoSplitted) \<noteq> 0
                 \<or> length (at_color BLACK castlingInfoSplitted) \<noteq> 0
           then do {
             startBoard0 \<leftarrow> new_CharBoard (nbRanks b) (nbFiles b);
             (_, startBoard) \<leftarrow> fill_char_board startBoard0 (startFen v) validSpecialCharacters v;
             k \<leftarrow> string_at (pieceToChar v) (KING t);
             let kingPositionsStart =
                   (get_square_for_piece startBoard (toupper k),
                    get_square_for_piece startBoard (tolower k))
             in if chess960 v
                then do {
                  r \<leftarrow> check_960_castling castlingInfoSplitted b kingPositionsStart;
                  if r = NOK then Some (Return FEN_INVALID_CASTLING_INFO) else Some (Continue ())
                }
                else do {
                  let rookPositionsStart =
                        (get_squares_for_piece startBoard (CHR ''R''),
                         get_squares_for_piece startBoard (CHR ''r''));
                  r \<leftarrow> check_standard_castling castlingInfoSplitted b kingPositions
                         kingPositionsStart rookPositionsStart;
                  if r = NOK then Some (Return FEN_INVALID_CASTLING_INFO) else Some (Continue ())
                }
           }
           else Some (Continue ())
      }
      else Some (Continue ()))"

text \<open>
  The king checks: number of kings, touching kings, castling. The two piece-type sets are
  \<open>std::set\<close>s; \<open>find(KING) != end()\<close> is membership and \<open>size() == 0\<close> is emptiness.
\<close>

definition fen_kings ::
  "types_h \<Rightarrow> string list \<Rightarrow> CharBoard \<Rightarrow> string \<times> string \<Rightarrow> Variant \<Rightarrow> unit step option" where
  "fen_kings t fenParts b pockets v =
     (if KING t \<in> pieceTypes v \<and> extinctionPieceTypes v = {}
      then do {
        part0 \<leftarrow> vector_at fenParts 0;
        kingsOk \<leftarrow> check_number_of_kings t part0 v;
        if kingsOk = NOK then Some (Return FEN_INVALID_NUMBER_OF_KINGS)
        else if no_king_piece_in_pockets pockets
        then do {
          k \<leftarrow> string_at (pieceToChar v) (KING t);
          let kingPositions =
                (get_square_for_piece b (toupper k), get_square_for_piece b (tolower k))
          in if check_touching_kings b kingPositions = NOK then Some (Return FEN_TOUCHING_KINGS)
             else fen_castling t fenParts b kingPositions v
        }
        else Some (Continue ())
      }
      else Some (Continue ()))"

text \<open>
  "2) Part", "4) Part", "6) Part" and "7) Part": side to move, en-passant square and the
  two counters. The index \<open>fenParts.size()-2\<close> is computed in \<open>size_t\<close> and wraps below
  two parts.
\<close>

definition fen_tail :: "types_h \<Rightarrow> string list \<Rightarrow> Variant \<Rightarrow> FenValidation option" where
  "fen_tail t fenParts v =
     do {
       part1 \<leftarrow> vector_at fenParts 1;
       stm \<leftarrow> string_at part1 0;
       if stm \<noteq> CHR ''w'' \<and> stm \<noteq> CHR ''b'' then Some FEN_INVALID_SIDE_TO_MOVE
       else do {
         epOk \<leftarrow> (if doubleStep v \<and> PAWN t \<in> pieceTypes v
                  then do { part3 \<leftarrow> vector_at fenParts 3; check_en_passant_square part3 }
                  else Some OK);
         if epOk = NOK then Some FEN_INVALID_EN_PASSANT_SQ
         else do {
           halfMove \<leftarrow> (if length fenParts < 2 then None
                        else vector_at fenParts (length fenParts - 2));
           if check_digit_field halfMove = NOK then Some FEN_INVALID_HALF_MOVE_COUNTER
           else do {
             fullMove \<leftarrow> (if length fenParts < 1 then None
                          else vector_at fenParts (length fenParts - 1));
             if check_digit_field fullMove = NOK then Some FEN_INVALID_MOVE_COUNTER
             else Some FEN_OK
           }
         }
       }
     }"

definition validate_fen :: "types_h \<Rightarrow> string \<Rightarrow> Variant \<Rightarrow> FenValidation option" where
  "validate_fen t fen v =
     (case fen_layout fen v of
        Return code \<Rightarrow> Some code
      | Continue fenParts \<Rightarrow>
          (case fen_board fenParts v of
             None \<Rightarrow> None
           | Some (Return code) \<Rightarrow> Some code
           | Some (Continue (b, pockets)) \<Rightarrow>
               (case fen_kings t fenParts b pockets v of
                  None \<Rightarrow> None
                | Some (Return code) \<Rightarrow> Some code
                | Some (Continue _) \<Rightarrow> fen_tail t fenParts v)))"

section \<open>Moves and positions\<close>

text \<open>
  Modelled from the spec: the \<open>Move\<close> type and its accessors (\<open>from_sq\<close>, \<open>to_sq\<close>,
  \<open>type_of\<close> on a move, \<open>promotion_type\<close>, \<open>dropped_piece_type\<close>, \<open>in_hand_piece_type\<close>,
  \<open>gating_type\<close>, \<open>gating_square\<close>, \<open>is_gating\<close>, \<open>make_move\<close> and
  \<open>make<PIECE_PROMOTION>\<close>) are declared in types.h, which is not among the sources. The
  spec describes a move as a tagged action (Normal, Drop, Castling, Promotion,
  PiecePromotion, PieceDemotion) that carries origin and destination squares and, depending
  on the tag, a dropped piece type, a promotion or gating piece type, or a gating square.
  The record holds what the accessors return.
\<close>

datatype MoveType = NORMAL | DROP | CASTLING | PROMOTION | PIECE_PROMOTION | PIECE_DEMOTION

record Move =
  from_sq :: Square
  to_sq :: Square
  move_type :: MoveType
  promotion_type :: PieceType
  dropped_piece_type :: PieceType
  in_hand_piece_type :: PieceType
  gating_type :: PieceType
  gating_square :: Square
  is_gating :: bool

definition make_move :: "Square \<Rightarrow> Square \<Rightarrow> Move" where
  "make_move fromSq toSq =
     \<lparr>from_sq = fromSq, to_sq = toSq, move_type = NORMAL, promotion_type = 0,
      dropped_piece_type = 0, in_hand_piece_type = 0, gating_type = 0, gating_square = 0,
      is_gating = False\<rparr>"

definition make_PIECE_PROMOTION :: "Square \<Rightarrow> Square \<Rightarrow> Move" where
  "make_PIECE_PROMOTION fromSq toSq = (make_move fromSq toSq)\<lparr>move_type := PIECE_PROMOTION\<rparr>"

text \<open>
  The member functions of \<open>Position\<close> that apiutil.h calls on a \<open>const Position&\<close>. The
  class is declared in position.h, which is not among the sources, so a position is given
  by what these queries answer. The four overloads of \<open>pieces\<close> have a name each.
\<close>

record Position =
  side_to_move :: Color
  moved_piece :: "Move \<Rightarrow> Piece"
  pieces :: Bitboard
  pieces_pt :: "PieceType \<Rightarrow> Bitboard"
  pieces_c :: "Color \<Rightarrow> Bitboard"
  pieces_c_pt :: "Color \<Rightarrow> PieceType \<Rightarrow> Bitboard"
  piece_on :: "Square \<Rightarrow> Piece"
  unpromoted_piece_on :: "Square \<Rightarrow> Piece"
  empty :: "Square \<Rightarrow> bool"
  board_bb :: "Color \<Rightarrow> PieceType \<Rightarrow> Bitboard"
  piece_to_char :: string
  piece_to_char_synonyms :: string
  max_file :: int
  max_rank :: int
  capture :: "Move \<Rightarrow> bool"
  pseudo_legal :: "Move \<Rightarrow> bool"
  legal :: "Move \<Rightarrow> bool"
  gives_check :: "Move \<Rightarrow> bool"
  sittuyin_promotion :: bool
  promoted_piece_type :: "PieceType \<Rightarrow> PieceType"
  piece_types :: "PieceType list"
  promotion_piece_types :: "PieceType set"
  captures_to_hand :: bool
  count_in_hand :: "Color \<Rightarrow> PieceType \<Rightarrow> int"
  count :: "Color \<Rightarrow> PieceType \<Rightarrow> int"
  extinction_value :: Value
  stalemate_value :: Value
  capture_the_flag_piece :: PieceType

text \<open>
  The operations on a \<open>Position&\<close> that change it, and the legal move list of a position.
  The type \<open>'p\<close> is the state of a position object; \<open>view\<close> gives the answers of its
  queries. \<open>MoveList_LEGAL_size\<close> is \<open>MoveList<LEGAL>(pos).size()\<close>; \<open>None\<close> stands for
  an evaluation that does not return to its caller (it throws).
\<close>

record 'p Engine =
  view :: "'p \<Rightarrow> Position"
  do_move :: "'p \<Rightarrow> Move \<Rightarrow> 'p"
  undo_move :: "'p \<Rightarrow> Move \<Rightarrow> 'p"
  MoveList_LEGAL_size :: "'p \<Rightarrow> nat option"

text \<open>Bitboard operations (bitboard.h) on the set of the squares whose bit is set.\<close>

definition popcount :: "Bitboard \<Rightarrow> int" where
  "popcount b = int (card b)"

definition square_bb :: "Square \<Rightarrow> Bitboard" where
  "square_bb s = {s}"

definition bb_xor :: "Bitboard \<Rightarrow> Bitboard \<Rightarrow> Bitboard" where
  "bb_xor a b = (a - b) \<union> (b - a)"

text \<open>\<open>lsb\<close> asserts that its argument is not zero.\<close>

definition lsb :: "Bitboard \<Rightarrow> Square option" where
  "lsb b = (if b = {} then None else Some (Min b))"

fun flip :: "Color \<Rightarrow> Color" where
  "flip WHITE = BLACK"
| "flip BLACK = WHITE"

section \<open>Move notation\<close>

datatype Notation =
    NOTATION_DEFAULT
  | NOTATION_SAN
  | NOTATION_LAN
  | NOTATION_SHOGI_HOSKING
  | NOTATION_SHOGI_HODGES
  | NOTATION_SHOGI_HODGES_NUMBER
  | NOTATION_JANGGI
  | NOTATION_XIANGQI_WXF

definition default_notation :: "Variant \<Rightarrow> Notation" where
  "default_notation v =
     (if variantTemplate v = ''shogi'' then NOTATION_SHOGI_HODGES_NUMBER else NOTATION_SAN)"

datatype Disambiguation =
    NO_DISAMBIGUATION
  | FILE_DISAMBIGUATION
  | RANK_DISAMBIGUATION
  | SQUARE_DISAMBIGUATION

definition is_shogi :: "Notation \<Rightarrow> bool" where
  "is_shogi n =
     (n = NOTATION_SHOGI_HOSKING \<or> n = NOTATION_SHOGI_HODGES \<or> n = NOTATION_SHOGI_HODGES_NUMBER)"

text \<open>\<open>std::to_string\<close> on an \<open>int\<close>, and \<open>%\<close>, which truncates towards zero.\<close>

function nat_to_string :: "nat \<Rightarrow> string" where
  "nat_to_string k =
     (if k < 10 then [char_of (48 + k)]
      else nat_to_string (k div 10) @ [char_of (48 + k mod 10)])"
  by pat_completeness auto
termination
  by (relation "measure id") auto

definition to_string :: "int \<Rightarrow> string" where
  "to_string i = (if i < 0 then CHR ''-'' # nat_to_string (nat (- i)) else nat_to_string (nat i))"

definition cpp_mod :: "int \<Rightarrow> int \<Rightarrow> int" where
  "cpp_mod a b = sgn a * (\<bar>a\<bar> mod \<bar>b\<bar>)"

definition piece :: "types_h \<Rightarrow> Position \<Rightarrow> Move \<Rightarrow> Notation \<Rightarrow> string option" where
  "piece t pos m n =
     (let us = side_to_move pos;
          fromSq = from_sq m;
          pc = moved_piece pos m;
          pt = type_of t pc
      in if (n = NOTATION_SAN \<or> n = NOTATION_LAN) \<and> type_of t pc = PAWN t \<and> move_type m \<noteq> DROP
         then Some []
         else if n = NOTATION_XIANGQI_WXF \<and> popcount (pieces_c_pt pos us pt \<inter> file_bb t fromSq) > 2
         then Some (to_string (popcount (forward_file_bb t us fromSq \<inter> pieces_c_pt pos us pt) + 1))
         else if is_shogi n \<and> move_type m \<noteq> DROP \<and> unpromoted_piece_on pos fromSq \<noteq> 0
         then do {
           c \<leftarrow> string_at (piece_to_char pos) (unpromoted_piece_on pos fromSq);
           Some (''+'' @ [toupper c])
         }
         else if is_shogi n \<and> move_type m = DROP \<and> dropped_piece_type m \<noteq> in_hand_piece_type m
         then do {
           c \<leftarrow> string_at (piece_to_char pos) (in_hand_piece_type m);
           Some (''+'' @ [toupper c])
         }
         else do {
           syn \<leftarrow> string_at (piece_to_char_synonyms pos) pc;
           if syn \<noteq> CHR '' '' then Some [toupper syn]
           else do {
             c \<leftarrow> string_at (piece_to_char pos) pc;
             Some [toupper c]
           }
         })"

text \<open>The function \<open>file\<close> of the source; its name is a keyword here.\<close>

fun file_str :: "types_h \<Rightarrow> Position \<Rightarrow> Square \<Rightarrow> Notation \<Rightarrow> string" where
  "file_str t pos s NOTATION_SHOGI_HOSKING = to_string (max_file pos - file_of t s + 1)"
| "file_str t pos s NOTATION_SHOGI_HODGES = to_string (max_file pos - file_of t s + 1)"
| "file_str t pos s NOTATION_SHOGI_HODGES_NUMBER = to_string (max_file pos - file_of t s + 1)"
| "file_str t pos s NOTATION_JANGGI = to_string (file_of t s + 1)"
| "file_str t pos s NOTATION_XIANGQI_WXF =
     to_string ((if side_to_move pos = WHITE then max_file pos - file_of t s else file_of t s) + 1)"
| "file_str t pos s _ = [char_of (97 + file_of t s)]"

fun rank :: "types_h \<Rightarrow> Position \<Rightarrow> Square \<Rightarrow> Notation \<Rightarrow> string" where
  "rank t pos s NOTATION_SHOGI_HOSKING = to_string (max_rank pos - rank_of t s + 1)"
| "rank t pos s NOTATION_SHOGI_HODGES_NUMBER = to_string (max_rank pos - rank_of t s + 1)"
| "rank t pos s NOTATION_SHOGI_HODGES = [char_of (97 + max_rank pos - rank_of t s)]"
| "rank t pos s NOTATION_JANGGI = to_string (cpp_mod (max_rank pos - rank_of t s + 1) 10)"
| "rank t pos s NOTATION_XIANGQI_WXF =
     (if empty pos s
      then to_string (relative_rank t (side_to_move pos) s (max_rank pos) + 1)
      else if pieces_c_pt pos (side_to_move pos) (type_of t (piece_on pos s))
                \<inter> forward_file_bb t (side_to_move pos) s \<noteq> {}
      then ''-''
      else ''+'')"
| "rank t pos s _ = to_string (rank_of t s + 1)"

fun square :: "types_h \<Rightarrow> Position \<Rightarrow> Square \<Rightarrow> Notation \<Rightarrow> string" where
  "square t pos s NOTATION_JANGGI = rank t pos s NOTATION_JANGGI @ file_str t pos s NOTATION_JANGGI"
| "square t pos s n = file_str t pos s n @ rank t pos s n"

text \<open>
  The loop of \<open>disambiguation_level\<close> takes the squares of \<open>b\<close> with \<open>pop_lsb\<close>, least
  first, and collects in \<open>others\<close> those from which the same destination is reached.
\<close>

definition disambiguation_others ::
  "Position \<Rightarrow> Notation \<Rightarrow> Square \<Rightarrow> Square \<Rightarrow> Bitboard \<Rightarrow> Bitboard" where
  "disambiguation_others pos n fromSq toSq b =
     fold (\<lambda>s others.
             if pseudo_legal pos (make_move s toSq)
                \<and> legal pos (make_move s toSq)
                \<and> \<not> (is_shogi n \<and> unpromoted_piece_on pos s \<noteq> unpromoted_piece_on pos fromSq)
             then others \<union> square_bb s
             else others)
          (sorted_list_of_set b) {}"

definition disambiguation_level ::
  "types_h \<Rightarrow> Position \<Rightarrow> Move \<Rightarrow> Notation \<Rightarrow> Disambiguation option" where
  "disambiguation_level t pos m n =
     (if move_type m = DROP then Some NO_DISAMBIGUATION
      else if n = NOTATION_LAN \<or> n = NOTATION_JANGGI then Some SQUARE_DISAMBIGUATION
      else
        let us = side_to_move pos;
            fromSq = from_sq m;
            toSq = to_sq m;
            pc = moved_piece pos m;
            pt = type_of t pc
        in if n = NOTATION_XIANGQI_WXF
           then (if popcount (pieces_c_pt pos us pt \<inter> file_bb t fromSq) = 2
                 then do {
                   otherFrom \<leftarrow> lsb (bb_xor (pieces_c_pt pos us pt \<inter> file_bb t fromSq)
                                      (square_bb fromSq));
                   let otherTo = otherFrom + toSq - fromSq
                   in if is_ok t otherTo \<and> board_bb pos us pt \<inter> square_bb otherTo \<noteq> {}
                      then Some RANK_DISAMBIGUATION
                      else Some FILE_DISAMBIGUATION
                 }
                 else Some FILE_DISAMBIGUATION)
           else if n = NOTATION_SAN \<and> pt = PAWN t \<and> capture pos m
           then Some FILE_DISAMBIGUATION
           else if n = NOTATION_SAN \<and> pt = PAWN t \<and> move_type m = PROMOTION \<and> fromSq \<noteq> toSq
                   \<and> sittuyin_promotion pos
           then Some SQUARE_DISAMBIGUATION
           else
             let b = bb_xor (pieces_c_pt pos us pt) (square_bb fromSq);
                 others = disambiguation_others pos n fromSq toSq b
             in if others = {} then Some NO_DISAMBIGUATION
                else if is_shogi n then Some SQUARE_DISAMBIGUATION
                else if others \<inter> file_bb t fromSq = {} then Some FILE_DISAMBIGUATION
                else if others \<inter> rank_bb t fromSq = {} then Some RANK_DISAMBIGUATION
                else Some SQUARE_DISAMBIGUATION)"

fun disambiguation ::
  "types_h \<Rightarrow> Position \<Rightarrow> Square \<Rightarrow> Notation \<Rightarrow> Disambiguation \<Rightarrow> string" where
  "disambiguation t pos s n FILE_DISAMBIGUATION = file_str t pos s n"
| "disambiguation t pos s n RANK_DISAMBIGUATION = rank t pos s n"
| "disambiguation t pos s n SQUARE_DISAMBIGUATION = square t pos s n"
| "disambiguation t pos s n NO_DISAMBIGUATION = []"

text \<open>
  \<open>move_to_san\<close> up to the comment "Check and checkmate": the text of the move without
  the check suffix. This part only queries the position.
\<close>

definition move_to_san_text :: "types_h \<Rightarrow> Position \<Rightarrow> Move \<Rightarrow> Notation \<Rightarrow> string option" where
  "move_to_san_text t pos m n =
     (let us = side_to_move pos;
          fromSq = from_sq m;
          toSq = to_sq m
      in if move_type m = CASTLING
         then
           (let san = (if toSq > fromSq then ''O-O'' else ''O-O-O'')
            in if is_gating m
               then do {
                 g \<leftarrow> string_at (piece_to_char pos) (make_piece t WHITE (gating_type m));
                 Some (san @ (''/'' @ [g]) @ square t pos (gating_square m) n)
               }
               else Some san)
         else do {
           pieceToken \<leftarrow> piece t pos m n;
           d \<leftarrow> disambiguation_level t pos m n;
           let san1 = pieceToken @ disambiguation t pos fromSq n d;
           let san2 =
                 (if move_type m = DROP
                  then san1 @ (if n = NOTATION_SHOGI_HOSKING then [CHR 0x27]
                               else if is_shogi n then ''*'' else ''@'')
                  else if n = NOTATION_XIANGQI_WXF
                  then (if rank_of t fromSq = rank_of t toSq then san1 @ ''=''
                        else if relative_rank t us toSq (max_rank pos)
                                > relative_rank t us fromSq (max_rank pos)
                        then san1 @ ''+''
                        else san1 @ ''-'')
                  else if capture pos m then san1 @ ''x''
                  else if n = NOTATION_LAN
                          \<or> (is_shogi n \<and> (n \<noteq> NOTATION_SHOGI_HOSKING \<or> d = SQUARE_DISAMBIGUATION))
                          \<or> n = NOTATION_JANGGI
                  then san1 @ ''-''
                  else san1);
           let san3 =
                 (if n = NOTATION_XIANGQI_WXF \<and> move_type m \<noteq> DROP
                  then san2 @ (if file_of t toSq = file_of t fromSq
                               then to_string \<bar>rank_of t toSq - rank_of t fromSq\<bar>
                               else file_str t pos toSq n)
                  else san2 @ square t pos toSq n);
           san4 \<leftarrow>
             (if move_type m = PROMOTION
              then do {
                c \<leftarrow> string_at (piece_to_char pos) (make_piece t WHITE (promotion_type m));
                Some (san3 @ (''='' @ [c]))
              }
              else if move_type m = PIECE_PROMOTION
              then (if is_shogi n then Some (san3 @ ''+'')
                    else do {
                      c \<leftarrow> string_at (piece_to_char pos)
                             (make_piece t WHITE
                                (promoted_piece_type pos (type_of t (moved_piece pos m))));
                      Some (san3 @ (''='' @ [c]))
                    })
              else if move_type m = PIECE_DEMOTION
              then (if is_shogi n then Some (san3 @ ''-'')
                    else do {
                      c \<leftarrow> string_at (piece_to_char pos) (unpromoted_piece_on pos fromSq);
                      Some (san3 @ (''='' @ [c]))
                    })
              else if move_type m = NORMAL \<and> is_shogi n
                      \<and> pseudo_legal pos (make_PIECE_PROMOTION fromSq toSq)
              then Some (san3 @ ''='')
              else Some san3);
           if is_gating m
           then do {
             g \<leftarrow> string_at (piece_to_char pos) (make_piece t WHITE (gating_type m));
             Some (san4 @ (''/'' @ [g]))
           }
           else Some san4
         })"

text \<open>
  The result of a call of \<open>move_to_san\<close>: the text, no defined result (an index out of
  range in the text part), or an exception that leaves the function.
\<close>

datatype san_result = San string | Undefined | Thrown

text \<open>
  \<open>move_to_san\<close> with the position object it is called on: the result and the state of the
  position afterwards. The check suffix applies the move, counts the legal replies and
  takes the move back with three statements in a row; no handler or scope guard is around
  the count.
\<close>

definition move_to_san ::
  "types_h \<Rightarrow> 'p Engine \<Rightarrow> 'p \<Rightarrow> Move \<Rightarrow> Notation \<Rightarrow> san_result \<times> 'p" where
  "move_to_san t e p m n =
     (case move_to_san_text t (view e p) m n of
        None \<Rightarrow> (Undefined, p)
      | Some san \<Rightarrow>
          if gives_check (view e p) m \<and> \<not> is_shogi n
          then
            (let p1 = do_move e p m
             in case MoveList_LEGAL_size e p1 of
                  None \<Rightarrow> (Thrown, p1)
                | Some replies \<Rightarrow>
                    (San (san @ (if replies \<noteq> 0 then ''+'' else ''#'')), undo_move e p1 m))
          else (San san, p))"

section \<open>Insufficient material\<close>

definition hasInsufficientMaterial :: "types_h \<Rightarrow> Color \<Rightarrow> Position \<Rightarrow> bool" where
  "hasInsufficientMaterial t c pos =
     (if captures_to_hand pos
         \<or> count_in_hand pos c (ALL_PIECES t) \<noteq> 0
         \<or> extinction_value pos \<noteq> VALUE_NONE t
         \<or> (capture_the_flag_piece pos \<noteq> 0 \<and> count pos c (capture_the_flag_piece pos) \<noteq> 0)
      then False
      else
        let restricted =
              fold (\<lambda>pt r. if pt = KING t \<or> board_bb pos c pt \<inter> board_bb pos (flip c) (KING t) = {}
                             then r \<union> pieces_c_pt pos c pt else r)
                   (piece_types pos) (pieces_c_pt pos (flip c) (KING t))
        in if list_ex (\<lambda>pt. pieces_c_pt pos c pt \<inter> - restricted \<noteq> {}
                              \<or> (count pos c (PAWN t) \<noteq> 0 \<and> pt \<in> promotion_piece_types pos))
                [ROOK t, QUEEN t, ARCHBISHOP t, CHANCELLOR t, SILVER t, GOLD t, COMMONER t,
                 CENTAUR t]
           then False
           else
             let colorbound =
                   fold (\<lambda>pt cb. cb \<union> (pieces_pt pos pt \<inter> - restricted))
                        [BISHOP t, FERS t, FERS_ALFIL t, ALFIL t, ELEPHANT t] {};
                 unbound = bb_xor (bb_xor (pieces pos) restricted) colorbound
             in if colorbound \<inter> pieces_c pos c \<noteq> {}
                   \<and> ((DarkSquares t \<inter> colorbound \<noteq> {} \<and> - DarkSquares t \<inter> colorbound \<noteq> {})
                       \<or> unbound \<noteq> {})
                then False
                else if pieces_c pos c \<inter> unbound \<noteq> {}
                        \<and> (popcount (bb_xor (pieces pos) restricted) \<ge> 2
                            \<or> stalemate_value pos \<noteq> VALUE_DRAW t)
                then False
                else True)"

section \<open>Auxiliary predicates for the proofs\<close>

text \<open>
  The invariant that the constructor of \<open>CharBoard\<close> establishes, and the relation between
  a board before and after pieces are set on it.
\<close>

definition CharBoard_ok :: "CharBoard \<Rightarrow> bool" where
  "CharBoard_ok b =
     (0 < nbRanks b \<and> 0 < nbFiles b \<and> length (board b) = nat (nbRanks b * nbFiles b))"

definition same_shape :: "CharBoard \<Rightarrow> CharBoard \<Rightarrow> bool" where
  "same_shape b b' =
     (nbRanks b' = nbRanks b \<and> nbFiles b' = nbFiles b \<and> length (board b') = length (board b))"

text \<open>
  The condition of standard castling for one colour whose castling letters are \<open>info\<close>:
  the king glyph is where it starts, and for each of the letters \<open>k\<close> and \<open>q\<close> present the
  rook glyph is on the corresponding rook starting square (the second, respectively the
  first, rook glyph of the start position in scan order).
\<close>

definition castling_intact ::
  "CharBoard \<Rightarrow> string \<Rightarrow> CharSquare \<Rightarrow> CharSquare \<Rightarrow> CharSquare list \<Rightarrow> char \<Rightarrow> bool" where
  "castling_intact b info kingNow kingStart rooksStart rookChar =
     (kingNow = kingStart
      \<and> (CHR ''k'' \<in> set info \<longrightarrow>
           get_piece b (rowIdx (rooksStart ! 1)) (fileIdx (rooksStart ! 1)) = Some rookChar)
      \<and> (CHR ''q'' \<in> set info \<longrightarrow>
           get_piece b (rowIdx (rooksStart ! 0)) (fileIdx (rooksStart ! 0)) = Some rookChar))"

section \<open>Example inputs\<close>

text \<open>
  One assignment of the enumerators and helpers (twelve files per rank in the square
  numbering, black pieces 32 above the white ones) and standard chess as a variant.
\<close>

definition example_types :: types_h where
  "example_types =
     \<lparr>PAWN = 1, BISHOP = 3, ROOK = 4, QUEEN = 5, FERS = 6, ALFIL = 7, FERS_ALFIL = 8,
      SILVER = 9, ARCHBISHOP = 10, CHANCELLOR = 11, GOLD = 12, ELEPHANT = 13, COMMONER = 14,
      CENTAUR = 15, KING = 16, ALL_PIECES = 0, VALUE_NONE = 32002, VALUE_DRAW = 0,
      DarkSquares = set (filter (\<lambda>s. even (s mod 12 + s div 12)) [0..119]),
      type_of = (\<lambda>pc. pc mod 32),
      make_piece = (\<lambda>c pt. (case c of WHITE \<Rightarrow> 0 | BLACK \<Rightarrow> 32) + pt),
      file_of = (\<lambda>s. s mod 12),
      rank_of = (\<lambda>s. s div 12),
      relative_rank = (\<lambda>c s r. case c of WHITE \<Rightarrow> s div 12 | BLACK \<Rightarrow> r - s div 12),
      is_ok = (\<lambda>s. 0 \<le> s \<and> s \<le> 119),
      file_bb = (\<lambda>s. set (filter (\<lambda>q. q mod 12 = s mod 12) [0..119])),
      rank_bb = (\<lambda>s. set (filter (\<lambda>q. q div 12 = s div 12) [0..119])),
      forward_file_bb =
        (\<lambda>c s. set (filter (\<lambda>q. q mod 12 = s mod 12
                                \<and> (case c of WHITE \<Rightarrow> s div 12 < q div 12
                                    | BLACK \<Rightarrow> q div 12 < s div 12)) [0..119]))\<rparr>"

definition chess_variant :: Variant where
  "chess_variant =
     \<lparr>variantTemplate = ''fairy'',
      pieceToChar = '' PNBRQ          K                pnbrq          k'',
      maxRank = 7, maxFile = 7,
      startFen = ''rnbqkbnr/pppppppp/8/8/8/8/PPPPPPPP/RNBQKBNR w KQkq - 0 1'',
      pieceDrops = False,
      pieceTypes = {1, 2, 3, 4, 5, 16},
      extinctionPieceTypes = {},
      castling = True, chess960 = False, doubleStep = True\<rparr>"



text \<open>
  A Xiangqi position (nine files, ten ranks) with White to move: white rooks on a1 and a3,
  white king on e1, black king on e10. A chess position with White to move: white rook on
  a1, white king on g6, black king on g8; the rook move to a8 gives check. Squares are
  numbered \<open>12 * rank + file\<close> as in \<open>example_types\<close>.
\<close>

definition xiangqi_position :: Position where
  "xiangqi_position =
     \<lparr>side_to_move = WHITE,
      moved_piece = (\<lambda>m. if from_sq m = 0 \<or> from_sq m = 24 then 4
                          else if from_sq m = 4 then 16 else if from_sq m = 112 then 48 else 0),
      pieces = {0, 4, 24, 112},
      pieces_pt = (\<lambda>pt. if pt = 4 then {0, 24} else if pt = 16 then {4, 112} else {}),
      pieces_c = (\<lambda>c. case c of WHITE \<Rightarrow> {0, 4, 24} | BLACK \<Rightarrow> {112}),
      pieces_c_pt = (\<lambda>c pt. case c of
                        WHITE \<Rightarrow> if pt = 4 then {0, 24} else if pt = 16 then {4} else {}
                      | BLACK \<Rightarrow> if pt = 16 then {112} else {}),
      piece_on = (\<lambda>s. if s = 0 \<or> s = 24 then 4 else if s = 4 then 16
                       else if s = 112 then 48 else 0),
      unpromoted_piece_on = (\<lambda>s. 0),
      empty = (\<lambda>s. s \<notin> {0, 4, 24, 112}),
      board_bb = (\<lambda>c pt. set (filter (\<lambda>s. s mod 12 < 9) [0..119])),
      piece_to_char = '' PNBRQ          K                pnbrq          k'',
      piece_to_char_synonyms = replicate 64 (CHR '' ''),
      max_file = 8, max_rank = 9,
      capture = (\<lambda>m. False),
      pseudo_legal = (\<lambda>m. from_sq m = 0 \<or> from_sq m = 24),
      legal = (\<lambda>m. from_sq m = 0 \<or> from_sq m = 24),
      gives_check = (\<lambda>m. False),
      sittuyin_promotion = False,
      promoted_piece_type = (\<lambda>pt. 0),
      piece_types = [4, 16],
      promotion_piece_types = {},
      captures_to_hand = False,
      count_in_hand = (\<lambda>c pt. 0),
      count = (\<lambda>c pt. case c of
                  WHITE \<Rightarrow> if pt = 4 then 2 else if pt = 16 then 1 else 0
                | BLACK \<Rightarrow> if pt = 16 then 1 else 0),
      extinction_value = 32002,
      stalemate_value = 0,
      capture_the_flag_piece = 0\<rparr>"


definition mate_position :: Position where
  "mate_position =
     \<lparr>side_to_move = WHITE,
      moved_piece = (\<lambda>m. if from_sq m = 0 then 4 else if from_sq m = 66 then 16
                          else if from_sq m = 90 then 48 else 0),
      pieces = {0, 66, 90},
      pieces_pt = (\<lambda>pt. if pt = 4 then {0} else if pt = 16 then {66, 90} else {}),
      pieces_c = (\<lambda>c. case c of WHITE \<Rightarrow> {0, 66} | BLACK \<Rightarrow> {90}),
      pieces_c_pt = (\<lambda>c pt. case c of
                        WHITE \<Rightarrow> if pt = 4 then {0} else if pt = 16 then {66} else {}
                      | BLACK \<Rightarrow> if pt = 16 then {90} else {}),
      piece_on = (\<lambda>s. if s = 0 then 4 else if s = 66 then 16 else if s = 90 then 48 else 0),
      unpromoted_piece_on = (\<lambda>s. 0),
      empty = (\<lambda>s. s \<notin> {0, 66, 90}),
      board_bb = (\<lambda>c pt. set (filter (\<lambda>s. s mod 12 < 8) [0..95])),
      piece_to_char = '' PNBRQ          K                pnbrq          k'',
      piece_to_char_synonyms = replicate 64 (CHR '' ''),
      max_file = 7, max_rank = 7,
      capture = (\<lambda>m. False),
      pseudo_legal = (\<lambda>m. from_sq m = 0 \<and> (to_sq m mod 12 = 0 \<or> to_sq m div 12 = 0)),
      legal = (\<lambda>m. from_sq m = 0 \<and> (to_sq m mod 12 = 0 \<or> to_sq m div 12 = 0)),
      gives_check = (\<lambda>m. from_sq m = 0 \<and> to_sq m = 84),
      sittuyin_promotion = False,
      promoted_piece_type = (\<lambda>pt. 0),
      piece_types = [1, 2, 3, 4, 5, 16],
      promotion_piece_types = {2, 3, 4, 5},
      captures_to_hand = False,
      count_in_hand = (\<lambda>c pt. 0),
      count = (\<lambda>c pt. case c of
                  WHITE \<Rightarrow> if pt = 4 then 1 else if pt = 16 then 1 else 0
                | BLACK \<Rightarrow> if pt = 16 then 1 else 0),
      extinction_value = 32002,
      stalemate_value = 0,
      capture_the_flag_piece = 0\<rparr>"

text \<open>
  Two engines over a position state that only counts the moves made: in the first the
  move list after the rook move is empty (checkmate), in the second building the move list
  does not return.
\<close>

definition mating_engine :: "nat Engine" where
  "mating_engine =
     \<lparr>view = (\<lambda>p. mate_position),
      do_move = (\<lambda>p m. Suc p),
      undo_move = (\<lambda>p m. p - 1),
      MoveList_LEGAL_size = (\<lambda>p. Some 0)\<rparr>"

definition throwing_engine :: "nat Engine" where
  "throwing_engine = mating_engine\<lparr>MoveList_LEGAL_size := (\<lambda>p. None)\<rparr>"




definition weak_variant :: Variant where
  "weak_variant =
     chess_variant\<lparr>startFen := ''nnnnknnn/pppppppp/2p2p2/1pppppp1/8/8/PPPPPPPP/RNBQKBNR w KQ - 0 1''\<rparr>"

definition weak_start_board :: CharBoard where
  "weak_start_board =
     \<lparr>nbRanks = 8, nbFiles = 8,
      board = ''RNBQKBNRPPPPPPPP                 pppppp   p  p  ppppppppnnnnknnn''\<rparr>"

section \<open>Which part of \<open>validate_fen\<close> returns which code\<close>

lemma fen_tail_codes:
  "fen_tail t ps v = Some c \<Longrightarrow>
     c \<in> {FEN_INVALID_SIDE_TO_MOVE, FEN_INVALID_EN_PASSANT_SQ, FEN_INVALID_HALF_MOVE_COUNTER,
          FEN_INVALID_MOVE_COUNTER, FEN_OK}"
  by (auto simp: fen_tail_def bind_eq_Some_conv split: if_splits)

lemma fen_castling_codes:
  "fen_castling t ps b kp v = Some (Return c) \<Longrightarrow> c = FEN_INVALID_CASTLING_INFO"
  unfolding fen_castling_def
  by (cases "castling v"; cases "vector_at ps 2"; simp)
     (auto simp: Let_def split: prod.splits if_splits bind_splits)

lemma fen_kings_codes:
  "fen_kings t ps b pockets v = Some (Return c) \<Longrightarrow>
     c \<in> {FEN_INVALID_NUMBER_OF_KINGS, FEN_TOUCHING_KINGS, FEN_INVALID_CASTLING_INFO}"
  by (auto simp: fen_kings_def bind_eq_Some_conv Let_def split: if_splits dest: fen_castling_codes)

lemma fen_board_codes:
  "fen_board ps v = Some (Return c) \<Longrightarrow>
     c \<in> {FEN_INVALID_CHAR, FEN_INVALID_BOARD_GEOMETRY, FEN_INVALID_POCKET_INFO}"
  by (auto simp: fen_board_def bind_eq_Some_conv Let_def split: if_splits prod.splits)

lemma fen_layout_parts:
  "fen_layout fen v = Continue ps \<Longrightarrow> ps = get_fen_parts fen (CHR '' '')"
  by (auto simp: fen_layout_def Let_def split: if_splits)

lemma validate_fen_cases:
  "validate_fen t fen v = Some c \<Longrightarrow>
     fen_layout fen v = Return c
     \<or> (\<exists>ps. fen_layout fen v = Continue ps \<and>
           (fen_board ps v = Some (Return c)
            \<or> (\<exists>b pockets. fen_board ps v = Some (Continue (b, pockets)) \<and>
                 (fen_kings t ps b pockets v = Some (Return c)
                  \<or> (fen_kings t ps b pockets v = Some (Continue ()) \<and> fen_tail t ps v = Some c)))))"
  by (auto simp: validate_fen_def split: step.splits option.splits)

lemma validate_fen_at_kings:
  "fen_layout fen v = Continue ps \<Longrightarrow> fen_board ps v = Some (Continue (b, pockets)) \<Longrightarrow>
   validate_fen t fen v =
     (case fen_kings t ps b pockets v of
        None \<Rightarrow> None
      | Some (Return c) \<Rightarrow> Some c
      | Some (Continue _) \<Rightarrow> fen_tail t ps v)"
  by (simp add: validate_fen_def)

lemma fen_board_part0:
  "fen_board ps v = Some r \<Longrightarrow> \<exists>part0. vector_at ps 0 = Some part0"
  by (cases "vector_at ps 0") (simp_all add: fen_board_def)

lemma sq_dist_le_2:
  fixes a b :: int
  shows "a ^ 2 + b ^ 2 \<le> 2 \<longleftrightarrow> \<bar>a\<bar> \<le> 1 \<and> \<bar>b\<bar> \<le> 1"
proof
  assume h: "a ^ 2 + b ^ 2 \<le> 2"
  have a: "\<bar>a\<bar> \<le> 1"
  proof (rule ccontr)
    assume "\<not> \<bar>a\<bar> \<le> 1"
    then have "2 \<le> \<bar>a\<bar>" by simp
    then have "2 * 2 \<le> \<bar>a\<bar> * \<bar>a\<bar>" by (intro mult_mono) simp_all
    then have "4 \<le> a ^ 2" by (simp add: power2_eq_square abs_mult_self_eq)
    moreover have "0 \<le> b ^ 2" by simp
    ultimately show False using h by linarith
  qed
  have b: "\<bar>b\<bar> \<le> 1"
  proof (rule ccontr)
    assume "\<not> \<bar>b\<bar> \<le> 1"
    then have "2 \<le> \<bar>b\<bar>" by simp
    then have "2 * 2 \<le> \<bar>b\<bar> * \<bar>b\<bar>" by (intro mult_mono) simp_all
    then have "4 \<le> b ^ 2" by (simp add: power2_eq_square abs_mult_self_eq)
    moreover have "0 \<le> a ^ 2" by simp
    ultimately show False using h by linarith
  qed
  from a b show "\<bar>a\<bar> \<le> 1 \<and> \<bar>b\<bar> \<le> 1" ..
next
  assume h: "\<bar>a\<bar> \<le> 1 \<and> \<bar>b\<bar> \<le> 1"
  then have "a \<in> {-1, 0, 1}" "b \<in> {-1, 0, 1}" by auto
  then show "a ^ 2 + b ^ 2 \<le> 2" by auto
qed



lemma nul_char_neq:
  "char_of (0::int) \<noteq> CHR ''-''" "\<not> isdigit (char_of (0::int))"
  by code_simp+

lemma check_en_passant_square_eq:
  "check_en_passant_square ep =
     Some (if ep \<noteq> [] \<and> hd ep = CHR ''-'' then OK
           else if length ep = 2 \<and> \<not> isdigit (ep ! 0) \<and> isdigit (ep ! 1) then OK
           else NOK)"
  by (cases ep) (auto simp: check_en_passant_square_def string_at_def nul_char_neq)

section \<open>The character board stays well-formed\<close>

lemma new_CharBoard_ok:
  "new_CharBoard r f = Some b \<Longrightarrow> CharBoard_ok b \<and> nbRanks b = r \<and> nbFiles b = f"
  by (auto simp: new_CharBoard_def CharBoard_ok_def split: if_splits)

lemma set_piece_shape: "set_piece b r f c = Some b' \<Longrightarrow> same_shape b b'"
  by (auto simp: set_piece_def same_shape_def Let_def split: if_splits)

lemma fill_loop_shape:
  "fill_loop v special s rankIdx fIdx prevChar b = Some (x, r', b') \<Longrightarrow> same_shape b b'"
proof (induction s arbitrary: rankIdx fIdx prevChar b)
  case Nil
  then show ?case by (simp add: same_shape_def)
next
  case (Cons c cs)
  show ?case
  proof (cases "set_piece b (maxRank v - rankIdx) fIdx c")
    case None
    with Cons show ?thesis
      by (auto simp: same_shape_def split: if_splits)
  next
    case (Some b1)
    from set_piece_shape[OF Some] have s1: "same_shape b b1" .
    from Cons.prems Some show ?thesis
      using Cons.IH s1
      by (auto simp: same_shape_def split: if_splits)
  qed
qed

lemma fill_char_board_shape:
  "fill_char_board b s special v = Some (x, b') \<Longrightarrow> same_shape b b'"
  by (auto simp: fill_char_board_def split: option.splits prod.splits Validation.splits if_splits
           dest: fill_loop_shape)

lemma same_shape_ok: "CharBoard_ok b \<Longrightarrow> same_shape b b' \<Longrightarrow> CharBoard_ok b'"
  by (simp add: CharBoard_ok_def same_shape_def)

lemma fen_board_ok:
  assumes "fen_board ps v = Some (Continue (b, pockets))"
  shows "CharBoard_ok b"
proof -
  from assms obtain part0 b0 x where
    "new_CharBoard (maxRank v + 1) (maxFile v + 1) = Some b0"
    "fill_char_board b0 part0 validSpecialCharacters v = Some (x, b)"
    by (auto simp: fen_board_def bind_eq_Some_conv split: if_splits)
  then show ?thesis
    using new_CharBoard_ok same_shape_ok fill_char_board_shape by blast
qed

lemma get_piece_in_range:
  assumes ok: "CharBoard_ok b" and rc: "(r, c) \<in> set (scan_order b)"
  shows "\<exists>p. get_piece b r c = Some p"
proof -
  from rc have r: "0 \<le> r" "r \<le> nbRanks b - 1" and c: "0 \<le> c" "c \<le> nbFiles b - 1"
    by (auto simp: scan_order_def)
  from ok have f: "0 < nbFiles b" and len: "int (length (board b)) = nbRanks b * nbFiles b"
    by (auto simp: CharBoard_ok_def)
  have "r * nbFiles b \<le> (nbRanks b - 1) * nbFiles b"
    using r f by (intro mult_right_mono) simp_all
  then have up: "r * nbFiles b + c < nbRanks b * nbFiles b"
    using c by (simp add: algebra_simps)
  have lo: "0 \<le> r * nbFiles b + c" using r c f by simp
  show ?thesis using up lo len by (simp add: get_piece_def)
qed

lemma get_squares_for_piece_in_scan:
  "sq \<in> set (get_squares_for_piece b p) \<Longrightarrow> (rowIdx sq, fileIdx sq) \<in> set (scan_order b)"
  by (auto simp: get_squares_for_piece_def)

lemma scan_order_same_shape: "same_shape b b' \<Longrightarrow> scan_order b' = scan_order b"
  by (simp add: scan_order_def same_shape_def)


lemma tolower_R: "tolower (CHR ''R'') = CHR ''r''"
  by code_simp

lemma check_standard_castling_sides_eq:
  assumes "2 \<le> length rooks"
    and "get_piece b (rowIdx (rooks ! 0)) (fileIdx (rooks ! 0)) = Some p0"
    and "get_piece b (rowIdx (rooks ! 1)) (fileIdx (rooks ! 1)) = Some p1"
  shows "check_standard_castling_sides info b c rooks [KING_SIDE, QUEEN_SIDE] =
           Some (if (CHR ''k'' \<in> set info \<and> p1 \<noteq> (if c = BLACK then CHR ''r'' else CHR ''R''))
                    \<or> (CHR ''q'' \<in> set info \<and> p0 \<noteq> (if c = BLACK then CHR ''r'' else CHR ''R''))
                 then NOK else OK)"
proof -
  from assms(1) have l: "0 < length rooks" "Suc 0 < length rooks" by auto
  show ?thesis
    using l assms(2,3) by (simp add: vector_at_def tolower_R Let_def)
qed

lemma rook_square_readable:
  assumes ok: "CharBoard_ok b" and shape: "scan_order sb = scan_order b"
    and i: "i < length (get_squares_for_piece sb p)"
  shows "\<exists>q. get_piece b (rowIdx (get_squares_for_piece sb p ! i))
                 (fileIdx (get_squares_for_piece sb p ! i)) = Some q"
proof -
  have "get_squares_for_piece sb p ! i \<in> set (get_squares_for_piece sb p)"
    using i by simp
  then have "(rowIdx (get_squares_for_piece sb p ! i), fileIdx (get_squares_for_piece sb p ! i))
               \<in> set (scan_order b)"
    using get_squares_for_piece_in_scan shape by metis
  then show ?thesis using get_piece_in_range[OF ok] by blast
qed

lemma check_standard_castling_eq:
  assumes ok: "CharBoard_ok b" and shape: "scan_order sb = scan_order b"
    and rw: "rw = get_squares_for_piece sb (CHR ''R'')"
    and rb: "rb = get_squares_for_piece sb (CHR ''r'')"
    and enough: "fst info \<noteq> [] \<longrightarrow> 2 \<le> length rw" "snd info \<noteq> [] \<longrightarrow> 2 \<le> length rb"
  shows "check_standard_castling info b (kw, kb) (ksw, ksb) (rw, rb) =
           Some (if (fst info \<noteq> [] \<longrightarrow> castling_intact b (fst info) kw ksw rw (CHR ''R''))
                    \<and> (snd info \<noteq> [] \<longrightarrow> castling_intact b (snd info) kb ksb rb (CHR ''r''))
                 then OK else NOK)"
proof -
  have white: "check_standard_castling_sides (fst info) b WHITE rw [KING_SIDE, QUEEN_SIDE] =
       Some (if (CHR ''k'' \<in> set (fst info) \<longrightarrow>
                   get_piece b (rowIdx (rw ! 1)) (fileIdx (rw ! 1)) = Some (CHR ''R''))
                \<and> (CHR ''q'' \<in> set (fst info) \<longrightarrow>
                   get_piece b (rowIdx (rw ! 0)) (fileIdx (rw ! 0)) = Some (CHR ''R''))
             then OK else NOK)" if "fst info \<noteq> []"
  proof -
    from that enough have l: "2 \<le> length rw" by simp
    then have i: "0 < length (get_squares_for_piece sb (CHR ''R''))"
        "1 < length (get_squares_for_piece sb (CHR ''R''))"
      using rw by auto
    obtain p0 where p0: "get_piece b (rowIdx (rw ! 0)) (fileIdx (rw ! 0)) = Some p0"
      using rook_square_readable[OF ok shape i(1)] rw by blast
    obtain p1 where p1: "get_piece b (rowIdx (rw ! 1)) (fileIdx (rw ! 1)) = Some p1"
      using rook_square_readable[OF ok shape i(2)] rw by blast
    show ?thesis
      using check_standard_castling_sides_eq[OF l p0 p1, of "fst info" WHITE] p0 p1 by auto
  qed
  have black: "check_standard_castling_sides (snd info) b BLACK rb [KING_SIDE, QUEEN_SIDE] =
       Some (if (CHR ''k'' \<in> set (snd info) \<longrightarrow>
                   get_piece b (rowIdx (rb ! 1)) (fileIdx (rb ! 1)) = Some (CHR ''r''))
                \<and> (CHR ''q'' \<in> set (snd info) \<longrightarrow>
                   get_piece b (rowIdx (rb ! 0)) (fileIdx (rb ! 0)) = Some (CHR ''r''))
             then OK else NOK)" if "snd info \<noteq> []"
  proof -
    from that enough have l: "2 \<le> length rb" by simp
    then have i: "0 < length (get_squares_for_piece sb (CHR ''r''))"
        "1 < length (get_squares_for_piece sb (CHR ''r''))"
      using rb by auto
    obtain p0 where p0: "get_piece b (rowIdx (rb ! 0)) (fileIdx (rb ! 0)) = Some p0"
      using rook_square_readable[OF ok shape i(1)] rb by blast
    obtain p1 where p1: "get_piece b (rowIdx (rb ! 1)) (fileIdx (rb ! 1)) = Some p1"
      using rook_square_readable[OF ok shape i(2)] rb by blast
    show ?thesis
      using check_standard_castling_sides_eq[OF l p0 p1, of "snd info" BLACK] p0 p1 by auto
  qed
  show ?thesis
  proof (cases "fst info = []")
    case wn: True
    show ?thesis
    proof (cases "snd info = []")
      case True
      with wn show ?thesis by (simp add: check_standard_castling_def)
    next
      case False
      with wn black[OF False] show ?thesis
        by (auto simp add: check_standard_castling_def castling_intact_def
                 simp del: check_standard_castling_sides.simps)
    qed
  next
    case wr: False
    show ?thesis
    proof (cases "snd info = []")
      case True
      with wr white[OF wr] show ?thesis
        by (auto simp add: check_standard_castling_def castling_intact_def
                 simp del: check_standard_castling_sides.simps)
    next
      case False
      with wr white[OF wr] black[OF False] show ?thesis
        by (auto simp add: check_standard_castling_def castling_intact_def
                 simp del: check_standard_castling_sides.simps)
    qed
  qed
qed


lemma fen_kings_apart:
  assumes royal: "KING t \<in> pieceTypes v"
    and noext: "extinctionPieceTypes v = {}"
    and part0: "vector_at ps 0 = Some part0"
    and kings: "check_number_of_kings t part0 v = Some OK"
    and nopocket: "no_king_piece_in_pockets pockets"
    and k: "string_at (pieceToChar v) (KING t) = Some k"
    and kw: "kw = get_square_for_piece b (toupper k)"
    and kb: "kb = get_square_for_piece b (tolower k)"
  shows "fen_kings t ps b pockets v =
          (if non_root_euclidian_distance kw kb \<le> 2 then Some (Return FEN_TOUCHING_KINGS)
           else fen_castling t ps b (kw, kb) v)"
  using assms by (simp add: fen_kings_def check_touching_kings_def)

section \<open>Digit runs in the board field\<close>


section \<open>The squares of the king glyphs on the character board\<close>

text \<open>
  The parts of a FEN hold no space, a board built from a board field holds a glyph at most
  as often as the field does, and \<open>get_square_for_piece\<close> returns the square of a glyph
  that is on the board once, and the default square for a glyph that is not on the board.
\<close>

lemma getline_loop_no_delim:
  "delim \<notin> set cur \<Longrightarrow> \<forall>p \<in> set (getline_loop delim cur s). delim \<notin> set p"
proof (induction s arbitrary: cur)
  case Nil
  then show ?case by simp
next
  case (Cons c cs)
  show ?case
  proof (cases "c = delim")
    case True
    with Cons.prems Cons.IH[of "[]"] show ?thesis by simp
  next
    case False
    with Cons.prems Cons.IH[of "cur @ [c]"] show ?thesis by simp
  qed
qed

lemma get_fen_parts_no_delim:
  "p \<in> set (get_fen_parts s delim) \<Longrightarrow> delim \<notin> set p"
  unfolding get_fen_parts_def using getline_loop_no_delim[of delim "[]" s] by simp

lemma count_list_update:
  "count_list (xs[i := c]) d \<le> count_list xs d + (if d = c then 1 else 0)"
proof (induction xs arbitrary: i)
  case Nil
  then show ?case by simp
next
  case (Cons a xs)
  show ?case
  proof (cases i)
    case 0
    then show ?thesis by simp
  next
    case (Suc j)
    with Cons.IH[of j] show ?thesis by simp
  qed
qed

lemma set_piece_count:
  "set_piece b r f c = Some b' \<Longrightarrow>
   count_list (board b') d \<le> count_list (board b) d + (if d = c then 1 else 0)"
  using count_list_update[of "board b" _ c d]
  by (auto simp: set_piece_def Let_def split: if_splits)

lemma fill_loop_count:
  "fill_loop v special s rankIdx fIdx prevChar b = Some (x, r', b') \<Longrightarrow>
   count_list (board b') d \<le> count_list (board b) d + count_list s d"
proof (induction s arbitrary: rankIdx fIdx prevChar b)
  case Nil
  then show ?case by simp
next
  case (Cons c cs)
  show ?case
  proof (cases "set_piece b (maxRank v - rankIdx) fIdx c")
    case None
    with Cons.prems Cons.IH show ?thesis
      by (fastforce split: if_splits)
  next
    case (Some b1)
    from set_piece_count[OF Some, of d]
    have s1: "count_list (board b1) d \<le> count_list (board b) d + (if d = c then 1 else 0)" .
    from Cons.prems Some consider
        (stop) "b' = b"
      | (same) rk fi pc where "fill_loop v special cs rk fi pc b = Some (x, r', b')"
      | (put) fi pc where "fill_loop v special cs rankIdx fi pc b1 = Some (x, r', b')"
      by (auto split: if_splits)
    then show ?thesis
    proof cases
      case stop
      then show ?thesis by simp
    next
      case same
      from Cons.IH[OF same] show ?thesis by (simp split: if_splits)
    next
      case put
      from Cons.IH[OF put] s1 show ?thesis by (simp split: if_splits)
    qed
  qed
qed

lemma fill_char_board_count:
  "fill_char_board b s special v = Some (x, b') \<Longrightarrow>
   count_list (board b') d \<le> count_list (board b) d + count_list s d"
  by (auto simp: fill_char_board_def split: option.splits prod.splits Validation.splits if_splits
           dest: fill_loop_count)

lemma new_CharBoard_count:
  "new_CharBoard r f = Some b \<Longrightarrow> d \<noteq> CHR '' '' \<Longrightarrow> count_list (board b) d = 0"
  by (auto simp: new_CharBoard_def split: if_splits)

lemma fen_board_count:
  assumes "fen_board ps v = Some (Continue (b, pockets))"
    and "vector_at ps 0 = Some part0" and "d \<noteq> CHR '' ''"
  shows "count_list (board b) d \<le> count_list part0 d"
proof -
  from assms(1,2) obtain b0 x where
    "new_CharBoard (maxRank v + 1) (maxFile v + 1) = Some b0"
    "fill_char_board b0 part0 validSpecialCharacters v = Some (x, b)"
    by (auto simp: fen_board_def bind_eq_Some_conv split: if_splits)
  then show ?thesis
    using new_CharBoard_count[of _ _ b0 d] fill_char_board_count[of b0 part0 _ v x b d] assms(3)
    by simp
qed

lemma count_list_le_1_index:
  "count_list xs x \<le> 1 \<Longrightarrow> i < length xs \<Longrightarrow> j < length xs \<Longrightarrow> xs ! i = x \<Longrightarrow> xs ! j = x
   \<Longrightarrow> i = j"
proof (induction xs arbitrary: i j)
  case Nil
  then show ?case by simp
next
  case (Cons a xs)
  have pos: "\<And>k. k < length xs \<Longrightarrow> xs ! k = x \<Longrightarrow> 0 < count_list xs x"
    by (metis count_list_0_iff nth_mem not_gr_zero)
  show ?case
  proof (cases i)
    case i0: 0
    show ?thesis
    proof (cases j)
      case 0
      with i0 show ?thesis by simp
    next
      case (Suc j')
      with Cons.prems i0 pos[of j'] show ?thesis by (auto split: if_splits)
    qed
  next
    case iS: (Suc i')
    show ?thesis
    proof (cases j)
      case 0
      with Cons.prems iS pos[of i'] show ?thesis by (auto split: if_splits)
    next
      case (Suc j')
      with Cons.prems iS Cons.IH[of i' j'] show ?thesis by (auto split: if_splits)
    qed
  qed
qed

lemma cell_index_inj:
  fixes r c r' c' n :: int
  assumes "0 \<le> c" "c < n" "0 \<le> c'" "c' < n" "r * n + c = r' * n + c'"
  shows "r = r' \<and> c = c'"
proof -
  have m: "(r * n + c) mod n = c" "(r' * n + c') mod n = c'"
    using assms(1-4) by simp_all
  from assms(5) have "(r * n + c) mod n = (r' * n + c') mod n" by (rule arg_cong)
  then have c: "c = c'" by (simp only: m)
  with assms(5) have "r * n = r' * n" by simp
  moreover have "n \<noteq> 0" using assms by auto
  ultimately have "r = r'" by simp
  with c show ?thesis by simp
qed

lemma scan_order_iff:
  "(r, c) \<in> set (scan_order b) \<longleftrightarrow> 0 \<le> r \<and> r < nbRanks b \<and> 0 \<le> c \<and> c < nbFiles b"
  by (auto simp: scan_order_def)

lemma get_piece_Some:
  "get_piece b r c = Some p \<longleftrightarrow>
     0 \<le> r * nbFiles b + c \<and> r * nbFiles b + c < int (length (board b))
     \<and> board b ! nat (r * nbFiles b + c) = p"
  by (auto simp: get_piece_def Let_def)

lemma get_square_for_piece_unique:
  assumes once: "count_list (board b) p \<le> 1"
    and rc: "0 \<le> r" "r < nbRanks b" "0 \<le> c" "c < nbFiles b"
    and at: "get_piece b r c = Some p"
  shows "get_square_for_piece b p = \<lparr>rowIdx = r, fileIdx = c\<rparr>"
proof -
  have "(r, c) \<in> set (scan_order b)" using rc by (simp add: scan_order_iff)
  with at have "find (\<lambda>(r, c). get_piece b r c = Some p) (scan_order b) \<noteq> None"
    by (auto simp: find_None_iff)
  then obtain r' c' where f: "find (\<lambda>(r, c). get_piece b r c = Some p) (scan_order b) = Some (r', c')"
    by auto
  then obtain i where i: "i < length (scan_order b)" "scan_order b ! i = (r', c')"
    and at': "get_piece b r' c' = Some p"
    by (auto simp: find_Some_iff)
  from i have in': "(r', c') \<in> set (scan_order b)" by (metis nth_mem)
  let ?i = "r * nbFiles b + c" and ?j = "r' * nbFiles b + c'"
  from at at' have "nat ?i < length (board b)" "nat ?j < length (board b)"
    "board b ! nat ?i = p" "board b ! nat ?j = p" "0 \<le> ?i" "0 \<le> ?j"
    by (auto simp: get_piece_Some)
  with count_list_le_1_index[OF once] have "?i = ?j" by (metis nat_eq_iff)
  then have eq: "r' * nbFiles b + c' = r * nbFiles b + c" by simp
  from in' have rc': "0 \<le> c'" "c' < nbFiles b" by (simp_all add: scan_order_iff)
  have "r' = r \<and> c' = c"
    by (rule cell_index_inj[OF rc'(1) rc'(2) rc(3) rc(4) eq])
  with f show ?thesis by (simp add: get_square_for_piece_def)
qed

lemma get_square_for_piece_absent:
  "p \<notin> set (board b) \<Longrightarrow> get_square_for_piece b p = CharSquare_none"
proof -
  assume "p \<notin> set (board b)"
  then have "\<And>r c. get_piece b r c \<noteq> Some p"
    by (auto simp: get_piece_Some)
  then have "find (\<lambda>(r, c). get_piece b r c = Some p) (scan_order b) = None"
    by (auto simp: find_None_iff)
  then show ?thesis by (simp add: get_square_for_piece_def)
qed

lemma check_number_of_kings_OK:
  "check_number_of_kings t part0 v = Some OK \<Longrightarrow> string_at (pieceToChar v) (KING t) = Some k
   \<Longrightarrow> count_list part0 (toupper k) = 1 \<and> count_list part0 (tolower k) = 1"
  by (auto simp: check_number_of_kings_def Let_def split: if_splits)


lemma king_square_found:
  assumes layout: "fen_layout fen v = Continue ps"
    and brd: "fen_board ps v = Some (Continue (b, pockets))"
    and part0: "vector_at ps 0 = Some part0"
    and once: "count_list part0 g = 1"
    and rc: "0 \<le> r" "r < nbRanks b" "0 \<le> c" "c < nbFiles b"
    and at: "get_piece b r c = Some g"
  shows "get_square_for_piece b g = \<lparr>rowIdx = r, fileIdx = c\<rparr>"
proof -
  from part0 have "part0 \<in> set ps"
    by (auto simp: vector_at_def split: if_splits)
  then have "CHR '' '' \<notin> set part0"
    using fen_layout_parts[OF layout] get_fen_parts_no_delim by blast
  moreover have "g \<in> set part0"
    using once by (metis count_list_0_iff zero_neq_one)
  ultimately have "g \<noteq> CHR '' ''" by auto
  from fen_board_count[OF brd part0 this] once have "count_list (board b) g \<le> 1" by simp
  from get_square_for_piece_unique[OF this rc at] show ?thesis .
qed

section \<open>The model on examples\<close>

text \<open>
  The empty text, a text without a space, the start position of chess, a board field whose
  first rank overruns the board (the piece is written past the end of the board vector),
  king and rook against king, and three move texts.
\<close>

lemma validate_fen_empty_text: "validate_fen t [] v = Some FEN_EMPTY"
  by (simp add: validate_fen_def fen_layout_def)

lemma validate_fen_missing_space:
  "fen \<noteq> [] \<Longrightarrow> CHR '' '' \<notin> set fen \<Longrightarrow> validate_fen t fen v = Some FEN_MISSING_SPACE_DELIM"
  by (simp add: validate_fen_def fen_layout_def)

lemma validate_fen_start_position:
  "validate_fen example_types ''rnbqkbnr/pppppppp/8/8/8/8/PPPPPPPP/RNBQKBNR w KQkq - 0 1''
     chess_variant = Some FEN_OK"
  by code_simp

lemma validate_fen_out_of_bounds:
  "validate_fen example_types ''9p/pppppppp/8/8/8/8/PPPPPPPP/RNBQKBNR w KQkq - 0 1''
     chess_variant = None"
  by code_simp

lemma hasInsufficientMaterial_examples:
  "hasInsufficientMaterial example_types BLACK mate_position"
  "\<not> hasInsufficientMaterial example_types WHITE mate_position"
  by code_simp+

lemma move_to_san_text_examples:
  "move_to_san_text example_types xiangqi_position (make_move 0 1) NOTATION_XIANGQI_WXF
     = Some ''R-=8''"
  "move_to_san_text example_types xiangqi_position (make_move 0 1) NOTATION_SAN = Some ''R1b1''"
  "move_to_san_text example_types mate_position (make_move 0 84) NOTATION_LAN = Some ''Ra1-a8''"
  by code_simp+

section \<open>Standard castling where the start position has the rook glyphs\<close>

text \<open>
  Where the start position has at least two rook glyphs of each colour that requests
  castling rights, the standard castling check returns \<open>FEN_INVALID_CASTLING_INFO\<close>
  exactly when a requesting colour's king glyph or the rook glyph of a requested side is
  not on its starting square.
\<close>

lemma validate_fen_standard_castling:
  assumes layout: "fen_layout fen v = Continue ps"
    and brd: "fen_board ps v = Some (Continue (b, pockets))"
    and royal: "KING t \<in> pieceTypes v"
    and noext: "extinctionPieceTypes v = {}"
    and part0: "vector_at ps 0 = Some part0"
    and kings: "check_number_of_kings t part0 v = Some OK"
    and nopocket: "no_king_piece_in_pockets pockets"
    and k: "string_at (pieceToChar v) (KING t) = Some k"
    and kw: "kw = get_square_for_piece b (toupper k)"
    and kb: "kb = get_square_for_piece b (tolower k)"
    and apart: "\<not> non_root_euclidian_distance kw kb \<le> 2"
    and cast: "castling v"
    and std: "\<not> chess960 v"
    and part2: "vector_at ps 2 = Some part2"
    and split: "fill_castling_info_splitted part2 ([], []) = (OK, info)"
    and req: "fst info \<noteq> [] \<or> snd info \<noteq> []"
    and sb0: "new_CharBoard (nbRanks b) (nbFiles b) = Some sb0"
    and sb: "fill_char_board sb0 (startFen v) validSpecialCharacters v = Some (filled, sb)"
    and ksw: "ksw = get_square_for_piece sb (toupper k)"
    and ksb: "ksb = get_square_for_piece sb (tolower k)"
    and rw: "rw = get_squares_for_piece sb (CHR ''R'')"
    and rb: "rb = get_squares_for_piece sb (CHR ''r'')"
    and enough_w: "fst info \<noteq> [] \<longrightarrow> 2 \<le> length rw"
    and enough_b: "snd info \<noteq> [] \<longrightarrow> 2 \<le> length rb"
  shows "(validate_fen t fen v = Some FEN_INVALID_CASTLING_INFO \<longleftrightarrow>
            \<not> ((fst info \<noteq> [] \<longrightarrow> castling_intact b (fst info) kw ksw rw (CHR ''R''))
               \<and> (snd info \<noteq> [] \<longrightarrow> castling_intact b (snd info) kb ksb rb (CHR ''r''))))
         \<and> (CHR ''k'' \<in> set (fst info)
              \<and> get_piece b (rowIdx (rw ! 1)) (fileIdx (rw ! 1)) \<noteq> Some (CHR ''R'')
            \<longrightarrow> validate_fen t fen v = Some FEN_INVALID_CASTLING_INFO)
         \<and> (CHR ''k'' \<in> set (snd info)
              \<and> get_piece b (rowIdx (rb ! 1)) (fileIdx (rb ! 1)) \<noteq> Some (CHR ''r'')
            \<longrightarrow> validate_fen t fen v = Some FEN_INVALID_CASTLING_INFO)"
proof -
  let ?intact = "(fst info \<noteq> [] \<longrightarrow> castling_intact b (fst info) kw ksw rw (CHR ''R''))
               \<and> (snd info \<noteq> [] \<longrightarrow> castling_intact b (snd info) kb ksb rb (CHR ''r''))"
  have ok: "CharBoard_ok b" using fen_board_ok[OF brd] .
  have "same_shape sb0 sb" using fill_char_board_shape[OF sb] .
  moreover have "nbRanks sb0 = nbRanks b" "nbFiles sb0 = nbFiles b"
    using new_CharBoard_ok[OF sb0] by simp_all
  ultimately have shape: "scan_order sb = scan_order b"
    by (simp add: scan_order_def same_shape_def)
  have std_eq: "check_standard_castling info b (kw, kb) (ksw, ksb) (rw, rb) =
                  Some (if ?intact then OK else NOK)"
    using check_standard_castling_eq[OF ok shape rw rb enough_w enough_b] .
  have fc: "fen_castling t ps b (kw, kb) v =
              Some (if ?intact then Continue () else Return FEN_INVALID_CASTLING_INFO)"
    using cast std part2 split req sb0 sb k ksw[symmetric] ksb[symmetric] rw[symmetric]
      rb[symmetric] std_eq
    by (auto simp: fen_castling_def)
  have fk: "fen_kings t ps b pockets v =
              Some (if ?intact then Continue () else Return FEN_INVALID_CASTLING_INFO)"
    using fen_kings_apart[OF royal noext part0 kings nopocket k kw kb] apart fc by simp
  have main: "validate_fen t fen v = Some FEN_INVALID_CASTLING_INFO \<longleftrightarrow> \<not> ?intact"
  proof (cases ?intact)
    case True
    then have "validate_fen t fen v = fen_tail t ps v"
      by (simp add: validate_fen_at_kings[OF layout brd] fk)
    then have "validate_fen t fen v \<noteq> Some FEN_INVALID_CASTLING_INFO"
      using fen_tail_codes[of t ps v FEN_INVALID_CASTLING_INFO] by auto
    then show ?thesis using True by blast
  next
    case False
    then have "validate_fen t fen v = Some FEN_INVALID_CASTLING_INFO"
      by (auto simp: validate_fen_at_kings[OF layout brd] fk)
    then show ?thesis using False by blast
  qed
  have w: "CHR ''k'' \<in> set (fst info)
              \<and> get_piece b (rowIdx (rw ! 1)) (fileIdx (rw ! 1)) \<noteq> Some (CHR ''R'')
            \<longrightarrow> \<not> ?intact"
    by (auto simp: castling_intact_def)
  have bl: "CHR ''k'' \<in> set (snd info)
              \<and> get_piece b (rowIdx (rb ! 1)) (fileIdx (rb ! 1)) \<noteq> Some (CHR ''r'')
            \<longrightarrow> \<not> ?intact"
    by (auto simp: castling_intact_def)
  from main w bl show ?thesis by blast
qed

lemma validate_fen_standard_castling_example:
  "validate_fen example_types ''rnbqkbnr/pppppppp/8/8/8/8/PPPPPPPP/RNBQKBN1 w KQkq - 0 1''
     chess_variant = Some FEN_INVALID_CASTLING_INFO"
proof -
  let ?fen = "''rnbqkbnr/pppppppp/8/8/8/8/PPPPPPPP/RNBQKBN1 w KQkq - 0 1''"
  let ?field = "''rnbqkbnr/pppppppp/8/8/8/8/PPPPPPPP/RNBQKBN1''"
  let ?ps = "[?field, ''w'', ''KQkq'', ''-'', ''0'', ''1'']"
  let ?b = "\<lparr>nbRanks = 8, nbFiles = 8,
        board = ''RNBQKBN PPPPPPPP                                pppppppprnbqkbnr''\<rparr>"
  let ?blank = "\<lparr>nbRanks = 8, nbFiles = 8,
        board = ''                                                                ''\<rparr>"
  let ?sb = "\<lparr>nbRanks = 8, nbFiles = 8,
        board = ''RNBQKBNRPPPPPPPP                                pppppppprnbqkbnr''\<rparr>"
  let ?kw = "\<lparr>rowIdx = 0, fileIdx = 4\<rparr>"
  let ?kb = "\<lparr>rowIdx = 7, fileIdx = 4\<rparr>"
  let ?rw = "[\<lparr>rowIdx = 0, fileIdx = 0\<rparr>, \<lparr>rowIdx = 0, fileIdx = 7\<rparr>]"
  let ?rb = "[\<lparr>rowIdx = 7, fileIdx = 0\<rparr>, \<lparr>rowIdx = 7, fileIdx = 7\<rparr>]"
  have h1: "fen_layout ?fen chess_variant = Continue ?ps" by code_simp
  have h2: "fen_board ?ps chess_variant = Some (Continue (?b, ([], [])))" by code_simp
  have h3: "KING example_types \<in> pieceTypes chess_variant" by code_simp
  have h4: "extinctionPieceTypes chess_variant = {}" by code_simp
  have h5: "vector_at ?ps 0 = Some ?field" by code_simp
  have h6: "check_number_of_kings example_types ?field chess_variant = Some OK" by code_simp
  have h7: "no_king_piece_in_pockets ([], [])" by code_simp
  have h8: "string_at (pieceToChar chess_variant) (KING example_types) = Some (CHR ''K'')"
    by code_simp
  have h9: "?kw = get_square_for_piece ?b (toupper (CHR ''K''))" by code_simp
  have h10: "?kb = get_square_for_piece ?b (tolower (CHR ''K''))" by code_simp
  have h11: "\<not> non_root_euclidian_distance ?kw ?kb \<le> 2" by code_simp
  have h12: "castling chess_variant" by code_simp
  have h13: "\<not> chess960 chess_variant" by code_simp
  have h14: "vector_at ?ps 2 = Some ''KQkq''" by code_simp
  have h15: "fill_castling_info_splitted ''KQkq'' ([], []) = (OK, (''kq'', ''kq''))" by code_simp
  have h16: "fst (''kq'', ''kq'') \<noteq> [] \<or> snd (''kq'', ''kq'') \<noteq> []" by simp
  have h17: "new_CharBoard (nbRanks ?b) (nbFiles ?b) = Some ?blank" by code_simp
  have h18: "fill_char_board ?blank (startFen chess_variant) validSpecialCharacters chess_variant
               = Some (OK, ?sb)" by code_simp
  have h19: "?kw = get_square_for_piece ?sb (toupper (CHR ''K''))" by code_simp
  have h20: "?kb = get_square_for_piece ?sb (tolower (CHR ''K''))" by code_simp
  have h21: "?rw = get_squares_for_piece ?sb (CHR ''R'')" by code_simp
  have h22: "?rb = get_squares_for_piece ?sb (CHR ''r'')" by code_simp
  have h23: "fst (''kq'', ''kq'') \<noteq> [] \<longrightarrow> 2 \<le> length ?rw" by simp
  have h24: "snd (''kq'', ''kq'') \<noteq> [] \<longrightarrow> 2 \<le> length ?rb" by simp
  have missing: "CHR ''k'' \<in> set (fst (''kq'', ''kq''))
       \<and> get_piece ?b (rowIdx (?rw ! 1)) (fileIdx (?rw ! 1)) \<noteq> Some (CHR ''R'')"
    by code_simp
  show ?thesis
    using validate_fen_standard_castling[OF h1 h2 h3 h4 h5 h6 h7 h8 h9 h10 h11 h12 h13 h14 h15
        h16 h17 h18 h19 h20 h21 h22 h23 h24] missing
    by blast
qed

section \<open>Claims about \<open>validate_fen\<close>\<close>

text \<open>
  C5. For a non-empty FEN text that contains a space, \<open>validate_fen\<close> returns
  \<open>FEN_INVALID_NB_PARTS\<close> if and only if the number of parts of the text is below the
  number of parts of the variant's start FEN (\<open>expected\<close>) or above
  \<open>min (expected + 2) 7\<close>. The counts are \<open>unsigned int\<close> in the source; the third
  assumption says that \<open>expected + 2\<close> is representable.
\<close>

theorem validate_fen_nb_parts:
  assumes "fen \<noteq> []" and "CHR '' '' \<in> set fen"
    and "int (length (get_fen_parts (startFen v) (CHR '' ''))) + 2 < 2 ^ 32"
  shows "validate_fen t fen v = Some FEN_INVALID_NB_PARTS \<longleftrightarrow>
           length (get_fen_parts fen (CHR '' '')) < length (get_fen_parts (startFen v) (CHR '' ''))
           \<or> length (get_fen_parts fen (CHR '' ''))
               > min (length (get_fen_parts (startFen v) (CHR '' '')) + 2) 7"
proof -
  let ?n = "length (get_fen_parts fen (CHR '' ''))"
  let ?e = "length (get_fen_parts (startFen v) (CHR '' ''))"
  have wrap: "int ?e mod 2 ^ 32 = int ?e" "(int ?e + 2) mod 2 ^ 32 = int ?e + 2"
    using assms(3) by simp_all
  show ?thesis
  proof (cases "?n < ?e \<or> ?n > min (?e + 2) 7")
    case True
    then have "fen_layout fen v = Return FEN_INVALID_NB_PARTS"
      using assms(1,2) wrap by (auto simp: fen_layout_def Let_def)
    then show ?thesis using True by (simp add: validate_fen_def)
  next
    case False
    then have lay: "fen_layout fen v = Continue (get_fen_parts fen (CHR '' ''))"
      using assms(1,2) wrap by (auto simp: fen_layout_def Let_def)
    have "validate_fen t fen v \<noteq> Some FEN_INVALID_NB_PARTS"
    proof
      assume "validate_fen t fen v = Some FEN_INVALID_NB_PARTS"
      from validate_fen_cases[OF this] lay show False
        by (auto dest: fen_board_codes fen_kings_codes fen_tail_codes)
    qed
    then show ?thesis using False by simp
  qed
qed

theorem validate_fen_nb_parts_witness:
  "validate_fen example_types ''8/8 w'' chess_variant = Some FEN_INVALID_NB_PARTS"
proof -
  have h1: "''8/8 w'' \<noteq> []" by simp
  have h2: "CHR '' '' \<in> set ''8/8 w''" by simp
  have h3: "int (length (get_fen_parts (startFen chess_variant) (CHR '' ''))) + 2 < 2 ^ 32"
    by code_simp
  have h4: "length (get_fen_parts ''8/8 w'' (CHR '' ''))
              < length (get_fen_parts (startFen chess_variant) (CHR '' ''))"
    by code_simp
  show ?thesis
    using validate_fen_nb_parts[OF h1 h2 h3, of example_types] h4 by blast
qed

text \<open>
  C9. \<open>check_digit_field\<close> returns \<open>OK\<close> on the empty field, so a FEN whose
  second-to-last part is empty is never answered with \<open>FEN_INVALID_HALF_MOVE_COUNTER\<close>,
  and one whose last part is empty is never answered with \<open>FEN_INVALID_MOVE_COUNTER\<close>.
\<close>

theorem check_digit_field_empty:
  "check_digit_field [] = OK
   \<and> (2 \<le> length (get_fen_parts fen (CHR '' ''))
        \<and> get_fen_parts fen (CHR '' '') ! (length (get_fen_parts fen (CHR '' '')) - 2) = []
      \<longrightarrow> validate_fen t fen v \<noteq> Some FEN_INVALID_HALF_MOVE_COUNTER)
   \<and> (1 \<le> length (get_fen_parts fen (CHR '' ''))
        \<and> get_fen_parts fen (CHR '' '') ! (length (get_fen_parts fen (CHR '' '')) - 1) = []
      \<longrightarrow> validate_fen t fen v \<noteq> Some FEN_INVALID_MOVE_COUNTER)"
proof (intro conjI impI notI)
  show "check_digit_field [] = OK" by (simp add: check_digit_field_def)
next
  let ?ps = "get_fen_parts fen (CHR '' '')"
  assume h: "2 \<le> length ?ps \<and> ?ps ! (length ?ps - 2) = []"
    and r: "validate_fen t fen v = Some FEN_INVALID_HALF_MOVE_COUNTER"
  from validate_fen_cases[OF r] obtain ps where
    "fen_layout fen v = Continue ps" "fen_tail t ps v = Some FEN_INVALID_HALF_MOVE_COUNTER"
    by (auto simp: fen_layout_def Let_def split: if_splits dest: fen_board_codes fen_kings_codes)
  then have "fen_tail t ?ps v = Some FEN_INVALID_HALF_MOVE_COUNTER"
    using fen_layout_parts by blast
  then show False using h
    by (auto simp: fen_tail_def bind_eq_Some_conv vector_at_def check_digit_field_def
             split: if_splits)
next
  let ?ps = "get_fen_parts fen (CHR '' '')"
  assume h: "1 \<le> length ?ps \<and> ?ps ! (length ?ps - 1) = []"
    and r: "validate_fen t fen v = Some FEN_INVALID_MOVE_COUNTER"
  from validate_fen_cases[OF r] obtain ps where
    "fen_layout fen v = Continue ps" "fen_tail t ps v = Some FEN_INVALID_MOVE_COUNTER"
    by (auto simp: fen_layout_def Let_def split: if_splits dest: fen_board_codes fen_kings_codes)
  then have "fen_tail t ?ps v = Some FEN_INVALID_MOVE_COUNTER"
    using fen_layout_parts by blast
  then show False using h
    by (auto simp: fen_tail_def bind_eq_Some_conv vector_at_def check_digit_field_def
             split: if_splits)
qed

theorem check_digit_field_empty_witness:
  "get_fen_parts ''rnbqkbnr/pppppppp/8/8/8/8/PPPPPPPP/RNBQKBNR w KQkq -   '' (CHR '' '')
     = [''rnbqkbnr/pppppppp/8/8/8/8/PPPPPPPP/RNBQKBNR'', ''w'', ''KQkq'', ''-'', [], []]
   \<and> validate_fen example_types ''rnbqkbnr/pppppppp/8/8/8/8/PPPPPPPP/RNBQKBNR w KQkq -   ''
        chess_variant \<noteq> Some FEN_INVALID_HALF_MOVE_COUNTER
   \<and> validate_fen example_types ''rnbqkbnr/pppppppp/8/8/8/8/PPPPPPPP/RNBQKBNR w KQkq -   ''
        chess_variant \<noteq> Some FEN_INVALID_MOVE_COUNTER"
proof -
  let ?fen = "''rnbqkbnr/pppppppp/8/8/8/8/PPPPPPPP/RNBQKBNR w KQkq -   ''"
  have ps: "get_fen_parts ?fen (CHR '' '')
     = [''rnbqkbnr/pppppppp/8/8/8/8/PPPPPPPP/RNBQKBNR'', ''w'', ''KQkq'', ''-'', [], []]"
    by code_simp
  have h1: "2 \<le> length (get_fen_parts ?fen (CHR '' ''))
        \<and> get_fen_parts ?fen (CHR '' '') ! (length (get_fen_parts ?fen (CHR '' '')) - 2) = []"
    unfolding ps by simp
  have h2: "1 \<le> length (get_fen_parts ?fen (CHR '' ''))
        \<and> get_fen_parts ?fen (CHR '' '') ! (length (get_fen_parts ?fen (CHR '' '')) - 1) = []"
    unfolding ps by simp
  show ?thesis
    using check_digit_field_empty[of ?fen example_types chess_variant] h1 h2 ps by blast
qed

text \<open>
  C4, as the code has it. In a variant with a royal king type and no extinction piece
  types, when the layout and board checks pass, each side has exactly one king glyph in
  the board field, no pocket holds a king and both king glyphs stand on the character
  board, \<open>validate_fen\<close> returns \<open>FEN_TOUCHING_KINGS\<close> exactly when the squared Euclidean
  distance between the squares of the two king glyphs is at most 2, that is, when the kings
  are at most one row and one file apart. The squares are any squares of the board that
  hold the glyphs; each glyph is on the board once.
\<close>

theorem validate_fen_touching_kings:
  assumes layout: "fen_layout fen v = Continue ps"
    and brd: "fen_board ps v = Some (Continue (b, pockets))"
    and royal: "KING t \<in> pieceTypes v"
    and noext: "extinctionPieceTypes v = {}"
    and part0: "vector_at ps 0 = Some part0"
    and kings: "check_number_of_kings t part0 v = Some OK"
    and nopocket: "no_king_piece_in_pockets pockets"
    and k: "string_at (pieceToChar v) (KING t) = Some k"
    and white: "0 \<le> rw" "rw < nbRanks b" "0 \<le> cw" "cw < nbFiles b"
      "get_piece b rw cw = Some (toupper k)"
    and black: "0 \<le> rb" "rb < nbRanks b" "0 \<le> cb" "cb < nbFiles b"
      "get_piece b rb cb = Some (tolower k)"
  shows "(validate_fen t fen v = Some FEN_TOUCHING_KINGS
            \<longleftrightarrow> (rw - rb) ^ 2 + (cw - cb) ^ 2 \<le> 2)
         \<and> ((rw - rb) ^ 2 + (cw - cb) ^ 2 \<le> 2 \<longleftrightarrow> \<bar>rw - rb\<bar> \<le> 1 \<and> \<bar>cw - cb\<bar> \<le> 1)"
proof
  note cnt = check_number_of_kings_OK[OF kings k]
  have kw: "\<lparr>rowIdx = rw, fileIdx = cw\<rparr> = get_square_for_piece b (toupper k)"
    using king_square_found[OF layout brd part0 cnt[THEN conjunct1] white] by simp
  have kb: "\<lparr>rowIdx = rb, fileIdx = cb\<rparr> = get_square_for_piece b (tolower k)"
    using king_square_found[OF layout brd part0 cnt[THEN conjunct2] black] by simp
  let ?kw = "\<lparr>rowIdx = rw, fileIdx = cw\<rparr>" and ?kb = "\<lparr>rowIdx = rb, fileIdx = cb\<rparr>"
  have d: "non_root_euclidian_distance ?kw ?kb = (rw - rb) ^ 2 + (cw - cb) ^ 2"
    by (simp add: non_root_euclidian_distance_def)
  have fk: "fen_kings t ps b pockets v =
          (if (rw - rb) ^ 2 + (cw - cb) ^ 2 \<le> 2 then Some (Return FEN_TOUCHING_KINGS)
           else fen_castling t ps b (?kw, ?kb) v)"
    using fen_kings_apart[OF royal noext part0 kings nopocket k kw kb] d by simp
  show "validate_fen t fen v = Some FEN_TOUCHING_KINGS
            \<longleftrightarrow> (rw - rb) ^ 2 + (cw - cb) ^ 2 \<le> 2"
  proof (cases "(rw - rb) ^ 2 + (cw - cb) ^ 2 \<le> 2")
    case True
    then show ?thesis by (simp add: validate_fen_at_kings[OF layout brd] fk)
  next
    case False
    have "validate_fen t fen v \<noteq> Some FEN_TOUCHING_KINGS"
      using False fen_castling_codes[of t ps b "(?kw, ?kb)" v] fen_tail_codes[of t ps v]
      by (auto simp: validate_fen_at_kings[OF layout brd] fk split: option.splits step.splits)
    then show ?thesis using False by simp
  qed
  show "(rw - rb) ^ 2 + (cw - cb) ^ 2 \<le> 2 \<longleftrightarrow> \<bar>rw - rb\<bar> \<le> 1 \<and> \<bar>cw - cb\<bar> \<le> 1"
    by (rule sq_dist_le_2)
qed

theorem validate_fen_touching_kings_witness:
  "validate_fen example_types ''rnbq1bnr/pppppppp/8/8/8/8/PPPPPkPP/RNBQKBNR w KQkq - 0 1''
     chess_variant = Some FEN_TOUCHING_KINGS
   \<and> validate_fen example_types ''rnbqkbnr/pppppppp/8/8/8/8/PPPPPPPP/RNBQKBNR w KQkq - 0 1''
       chess_variant \<noteq> Some FEN_TOUCHING_KINGS"
proof -
  let ?fen = "''rnbq1bnr/pppppppp/8/8/8/8/PPPPPkPP/RNBQKBNR w KQkq - 0 1''"
  let ?ps = "[''rnbq1bnr/pppppppp/8/8/8/8/PPPPPkPP/RNBQKBNR'', ''w'', ''KQkq'', ''-'', ''0'', ''1'']"
  let ?b = "\<lparr>nbRanks = 8, nbFiles = 8,
        board = ''RNBQKBNRPPPPPkPP                                pppppppprnbq bnr''\<rparr>"
  let ?start = "''rnbqkbnr/pppppppp/8/8/8/8/PPPPPPPP/RNBQKBNR w KQkq - 0 1''"
  let ?qs = "[''rnbqkbnr/pppppppp/8/8/8/8/PPPPPPPP/RNBQKBNR'', ''w'', ''KQkq'', ''-'', ''0'', ''1'']"
  let ?c = "\<lparr>nbRanks = 8, nbFiles = 8,
        board = ''RNBQKBNRPPPPPPPP                                pppppppprnbqkbnr''\<rparr>"
  have h3: "KING example_types \<in> pieceTypes chess_variant" by code_simp
  have h4: "extinctionPieceTypes chess_variant = {}" by code_simp
  have h7: "no_king_piece_in_pockets ([], [])" by code_simp
  have h8: "string_at (pieceToChar chess_variant) (KING example_types) = Some (CHR ''K'')"
    by code_simp
  have a1: "fen_layout ?fen chess_variant = Continue ?ps" by code_simp
  have a2: "fen_board ?ps chess_variant = Some (Continue (?b, ([], [])))" by code_simp
  have a5: "vector_at ?ps 0 = Some ''rnbq1bnr/pppppppp/8/8/8/8/PPPPPkPP/RNBQKBNR''" by code_simp
  have a6: "check_number_of_kings example_types ''rnbq1bnr/pppppppp/8/8/8/8/PPPPPkPP/RNBQKBNR''
              chess_variant = Some OK" by code_simp
  have aw: "(0::int) \<le> 0" "0 < nbRanks ?b" "(0::int) \<le> 4" "4 < nbFiles ?b"
    "get_piece ?b 0 4 = Some (toupper (CHR ''K''))" by code_simp+
  have ab: "(0::int) \<le> 1" "1 < nbRanks ?b" "(0::int) \<le> 5" "5 < nbFiles ?b"
    "get_piece ?b 1 5 = Some (tolower (CHR ''K''))" by code_simp+
  have ad: "((0::int) - 1) ^ 2 + (4 - 5) ^ 2 \<le> 2" by simp
  have b1: "fen_layout ?start chess_variant = Continue ?qs" by code_simp
  have b2: "fen_board ?qs chess_variant = Some (Continue (?c, ([], [])))" by code_simp
  have b5: "vector_at ?qs 0 = Some ''rnbqkbnr/pppppppp/8/8/8/8/PPPPPPPP/RNBQKBNR''" by code_simp
  have b6: "check_number_of_kings example_types ''rnbqkbnr/pppppppp/8/8/8/8/PPPPPPPP/RNBQKBNR''
              chess_variant = Some OK" by code_simp
  have bw: "(0::int) \<le> 0" "0 < nbRanks ?c" "(0::int) \<le> 4" "4 < nbFiles ?c"
    "get_piece ?c 0 4 = Some (toupper (CHR ''K''))" by code_simp+
  have bb: "(0::int) \<le> 7" "7 < nbRanks ?c" "(0::int) \<le> 4" "4 < nbFiles ?c"
    "get_piece ?c 7 4 = Some (tolower (CHR ''K''))" by code_simp+
  have bd: "\<not> ((0::int) - 7) ^ 2 + (4 - 4) ^ 2 \<le> 2" by simp
  from validate_fen_touching_kings[OF a1 a2 h3 h4 a5 a6 h7 h8 aw ab, THEN conjunct1] ad
  have touching: "validate_fen example_types ?fen chess_variant = Some FEN_TOUCHING_KINGS"
    by (rule iffD2)
  from validate_fen_touching_kings[OF b1 b2 h3 h4 b5 b6 h7 h8 bw bb, THEN conjunct1] bd
  have apart: "validate_fen example_types ?start chess_variant \<noteq> Some FEN_TOUCHING_KINGS"
    by blast
  from touching apart show ?thesis ..
qed

text \<open>
  C4, as the claim words it, speaks of the king squares on the parsed board in every case
  in which the earlier checks pass. The number of kings is counted in the whole board
  field, while the board ends at the first bracket: with \<open>8/8/8/8/8/8/8/k7[]K\<close> in
  standard chess the white king glyph is not on the board, \<open>get_square_for_piece\<close>
  answers with its default square (-1, -1), and the black king on the corner square next
  to it gives \<open>FEN_TOUCHING_KINGS\<close>; with the black king on e1 the result is \<open>FEN_OK\<close>.
\<close>

theorem validate_fen_touching_kings_off_board:
  "KING example_types \<in> pieceTypes chess_variant \<and> extinctionPieceTypes chess_variant = {}
   \<and> fen_layout ''8/8/8/8/8/8/8/k7[]K w - - 0 1'' chess_variant
       = Continue [''8/8/8/8/8/8/8/k7[]K'', ''w'', ''-'', ''-'', ''0'', ''1'']
   \<and> fen_board [''8/8/8/8/8/8/8/k7[]K'', ''w'', ''-'', ''-'', ''0'', ''1''] chess_variant
       = Some (Continue (\<lparr>nbRanks = 8, nbFiles = 8,
                          board = CHR ''k'' # replicate 63 (CHR '' '')\<rparr>, ([], [])))
   \<and> check_number_of_kings example_types ''8/8/8/8/8/8/8/k7[]K'' chess_variant = Some OK
   \<and> no_king_piece_in_pockets ([], [])
   \<and> CHR ''K'' \<notin> set (CHR ''k'' # replicate 63 (CHR '' ''))
   \<and> get_squares_for_piece
        \<lparr>nbRanks = 8, nbFiles = 8, board = CHR ''k'' # replicate 63 (CHR '' '')\<rparr> (CHR ''K'') = []
   \<and> get_square_for_piece
        \<lparr>nbRanks = 8, nbFiles = 8, board = CHR ''k'' # replicate 63 (CHR '' '')\<rparr> (CHR ''K'')
       = \<lparr>rowIdx = -1, fileIdx = -1\<rparr>
   \<and> get_square_for_piece
        \<lparr>nbRanks = 8, nbFiles = 8, board = CHR ''k'' # replicate 63 (CHR '' '')\<rparr> (CHR ''k'')
       = \<lparr>rowIdx = 0, fileIdx = 0\<rparr>
   \<and> validate_fen example_types ''8/8/8/8/8/8/8/k7[]K w - - 0 1'' chess_variant
       = Some FEN_TOUCHING_KINGS
   \<and> validate_fen example_types ''8/8/8/8/8/8/8/4k3[]K w - - 0 1'' chess_variant = Some FEN_OK"
  by code_simp




text \<open>
  C6. The claim says that, with double-step pawn moves and a pawn type enabled, an
  en-passant field is accepted only if it is the single character \<open>-\<close> or a non-digit
  followed by a digit. \<open>check_en_passant_square\<close> tests only the first character for
  \<open>-\<close> (see \<open>check_en_passant_square_eq\<close>), so the field \<open>-a\<close> passes: standard chess
  with this en-passant field is answered with \<open>FEN_OK\<close>, where the claim requires
  \<open>FEN_INVALID_EN_PASSANT_SQ\<close>.
\<close>

theorem en_passant_dash_prefix:
  "doubleStep chess_variant \<and> PAWN example_types \<in> pieceTypes chess_variant
   \<and> vector_at (get_fen_parts ''rnbqkbnr/pppppppp/8/8/8/8/PPPPPPPP/RNBQKBNR w KQkq -a 0 1''
                  (CHR '' '')) 3 = Some ''-a''
   \<and> ''-a'' \<noteq> ''-''
   \<and> \<not> (length ''-a'' = 2 \<and> \<not> isdigit (''-a'' ! 0) \<and> isdigit (''-a'' ! 1))
   \<and> check_en_passant_square ''-a'' = Some OK
   \<and> validate_fen example_types ''rnbqkbnr/pppppppp/8/8/8/8/PPPPPPPP/RNBQKBNR w KQkq -a 0 1''
        chess_variant = Some FEN_OK"
  by code_simp

text \<open>
  C3. The claim has \<open>validate_fen\<close> return \<open>FEN_INVALID_CASTLING_INFO\<close> whenever a
  colour requests castling rights and its king glyph or the rook glyph of a requested side
  is not on its starting square. \<open>check_standard_castling\<close> reads the second and then the
  first starting square of that colour's rook glyphs from a vector whose size it does not
  test. In the variant "weak" the start position has no black rooks: the start position
  with the castling field \<open>KQkq\<close> passes every earlier check, Black requests rights, the
  black king is on its starting square, and the read of the second black rook square is
  out of the range of the empty vector. The call has no defined result, where the claim
  requires \<open>FEN_INVALID_CASTLING_INFO\<close>. With the castling field \<open>KQ\<close> of the variant's
  own start position the result is \<open>FEN_OK\<close>.
\<close>

theorem standard_castling_rook_index:
  "castling weak_variant \<and> \<not> chess960 weak_variant
   \<and> KING example_types \<in> pieceTypes weak_variant \<and> extinctionPieceTypes weak_variant = {}
   \<and> fen_layout ''nnnnknnn/pppppppp/2p2p2/1pppppp1/8/8/PPPPPPPP/RNBQKBNR w KQkq - 0 1''
        weak_variant
       = Continue [''nnnnknnn/pppppppp/2p2p2/1pppppp1/8/8/PPPPPPPP/RNBQKBNR'', ''w'', ''KQkq'',
                   ''-'', ''0'', ''1'']
   \<and> fen_board [''nnnnknnn/pppppppp/2p2p2/1pppppp1/8/8/PPPPPPPP/RNBQKBNR'', ''w'', ''KQkq'',
                 ''-'', ''0'', ''1''] weak_variant
       = Some (Continue (weak_start_board, ([], [])))
   \<and> check_number_of_kings example_types
        ''nnnnknnn/pppppppp/2p2p2/1pppppp1/8/8/PPPPPPPP/RNBQKBNR'' weak_variant = Some OK
   \<and> check_touching_kings weak_start_board
        (get_square_for_piece weak_start_board (CHR ''K''),
         get_square_for_piece weak_start_board (CHR ''k'')) = OK
   \<and> fill_castling_info_splitted ''KQkq'' ([], []) = (OK, (''kq'', ''kq''))
   \<and> fill_char_board \<lparr>nbRanks = 8, nbFiles = 8, board = replicate 64 (CHR '' '')\<rparr>
        (startFen weak_variant) validSpecialCharacters weak_variant
       = Some (OK, weak_start_board)
   \<and> get_squares_for_piece weak_start_board (CHR ''R'')
       = [\<lparr>rowIdx = 0, fileIdx = 0\<rparr>, \<lparr>rowIdx = 0, fileIdx = 7\<rparr>]
   \<and> get_squares_for_piece weak_start_board (CHR ''r'') = []
   \<and> vector_at (get_squares_for_piece weak_start_board (CHR ''r'')) 1 = None
   \<and> check_standard_castling (''kq'', ''kq'') weak_start_board
        (get_square_for_piece weak_start_board (CHR ''K''),
         get_square_for_piece weak_start_board (CHR ''k''))
        (get_square_for_piece weak_start_board (CHR ''K''),
         get_square_for_piece weak_start_board (CHR ''k''))
        (get_squares_for_piece weak_start_board (CHR ''R''),
         get_squares_for_piece weak_start_board (CHR ''r'')) = None
   \<and> validate_fen example_types
        ''nnnnknnn/pppppppp/2p2p2/1pppppp1/8/8/PPPPPPPP/RNBQKBNR w KQkq - 0 1'' weak_variant
       = None
   \<and> validate_fen example_types
        ''nnnnknnn/pppppppp/2p2p2/1pppppp1/8/8/PPPPPPPP/RNBQKBNR w KQ - 0 1'' weak_variant
       = Some FEN_OK"
  by code_simp



section \<open>Claims about the move notation and the material check\<close>

text \<open>
  C7. \<open>hasInsufficientMaterial\<close> returns false whenever captures go to hand, or the colour
  holds at least one piece in hand, or an extinction win condition is configured (the
  extinction value is not \<open>VALUE_NONE\<close>), or a capture-the-flag piece is configured and the
  colour owns at least one such piece.
\<close>

theorem hasInsufficientMaterial_other_win_rules:
  "captures_to_hand pos
   \<or> 0 < count_in_hand pos c (ALL_PIECES t)
   \<or> extinction_value pos \<noteq> VALUE_NONE t
   \<or> (capture_the_flag_piece pos \<noteq> 0 \<and> 0 < count pos c (capture_the_flag_piece pos))
   \<Longrightarrow> hasInsufficientMaterial t c pos = False"
  by (auto simp: hasInsufficientMaterial_def)

theorem hasInsufficientMaterial_other_win_rules_witness:
  "hasInsufficientMaterial example_types WHITE (mate_position\<lparr>captures_to_hand := True\<rparr>) = False
   \<and> hasInsufficientMaterial example_types BLACK
        (mate_position\<lparr>count_in_hand := (\<lambda>c pt. 1)\<rparr>) = False"
proof -
  have a: "captures_to_hand (mate_position\<lparr>captures_to_hand := True\<rparr>)" by simp
  have b: "0 < count_in_hand (mate_position\<lparr>count_in_hand := (\<lambda>c pt. 1)\<rparr>) BLACK
                 (ALL_PIECES example_types)" by simp
  show ?thesis
    using hasInsufficientMaterial_other_win_rules[of "mate_position\<lparr>captures_to_hand := True\<rparr>"
            WHITE example_types] a
      hasInsufficientMaterial_other_win_rules[of "mate_position\<lparr>count_in_hand := (\<lambda>c pt. 1)\<rparr>"
            BLACK example_types] b
    by simp
qed

text \<open>
  C2, as the code has it. For a move that is no drop, made by the piece on its origin
  square, \<open>disambiguation_level\<close> under \<open>NOTATION_XIANGQI_WXF\<close> returns
  \<open>RANK_DISAMBIGUATION\<close> exactly when the pieces of the mover's type and colour on the
  origin file are two with the mover counted, the mover and one other piece, and the
  other piece's square shifted by the mover's displacement passes \<open>is_ok\<close> and lies in
  the movement region \<open>board_bb\<close> of that piece type; in every other case it returns
  \<open>FILE_DISAMBIGUATION\<close>.
\<close>

theorem disambiguation_level_xiangqi:
  assumes nodrop: "move_type m \<noteq> DROP"
    and us: "us = side_to_move pos"
    and pt: "pt = type_of t (moved_piece pos m)"
    and mover: "from_sq m \<in> pieces_c_pt pos us pt"
    and onfile: "from_sq m \<in> file_bb t (from_sq m)"
  shows "(disambiguation_level t pos m NOTATION_XIANGQI_WXF = Some RANK_DISAMBIGUATION \<longleftrightarrow>
           (\<exists>other. other \<noteq> from_sq m
              \<and> pieces_c_pt pos us pt \<inter> file_bb t (from_sq m) = {from_sq m, other}
              \<and> is_ok t (other + to_sq m - from_sq m)
              \<and> other + to_sq m - from_sq m \<in> board_bb pos us pt))
         \<and> (disambiguation_level t pos m NOTATION_XIANGQI_WXF \<noteq> Some RANK_DISAMBIGUATION
            \<longrightarrow> disambiguation_level t pos m NOTATION_XIANGQI_WXF = Some FILE_DISAMBIGUATION)"
proof -
  let ?S = "pieces_c_pt pos us pt \<inter> file_bb t (from_sq m)"
  let ?f = "from_sq m"
  have inS: "?f \<in> ?S" using mover onfile by simp
  show ?thesis
  proof (cases "card ?S = 2")
    case True
    then obtain x y where xy: "?S = {x, y}" "x \<noteq> y" by (auto simp: card_2_iff)
    with inS obtain other where o: "?S = {?f, other}" "other \<noteq> ?f" by auto
    then have x: "bb_xor ?S (square_bb ?f) = {other}"
      by (auto simp: bb_xor_def square_bb_def)
    have l: "lsb (bb_xor ?S (square_bb ?f)) = Some other"
      unfolding x by (simp add: lsb_def)
    have uniq: "\<And>z. z \<noteq> ?f \<Longrightarrow> ?S = {?f, z} \<Longrightarrow> z = other"
      using o by (metis doubleton_eq_iff)
    let ?C = "\<lambda>z. is_ok t (z + to_sq m - ?f) \<and> z + to_sq m - ?f \<in> board_bb pos us pt"
    have res: "disambiguation_level t pos m NOTATION_XIANGQI_WXF =
                 (if ?C other then Some RANK_DISAMBIGUATION else Some FILE_DISAMBIGUATION)"
      using nodrop True l us[symmetric] pt[symmetric]
      by (simp add: disambiguation_level_def popcount_def Let_def square_bb_def)
    show ?thesis
    proof (cases "?C other")
      case yes: True
      then have r: "disambiguation_level t pos m NOTATION_XIANGQI_WXF = Some RANK_DISAMBIGUATION"
        using res by simp
      have "\<exists>z. z \<noteq> ?f \<and> ?S = {?f, z} \<and> ?C z"
        using o yes by blast
      then show ?thesis using r by simp
    next
      case no: False
      then have r: "disambiguation_level t pos m NOTATION_XIANGQI_WXF = Some FILE_DISAMBIGUATION"
        using res by simp
      have "\<not> (\<exists>z. z \<noteq> ?f \<and> ?S = {?f, z} \<and> ?C z)"
      proof
        assume "\<exists>z. z \<noteq> ?f \<and> ?S = {?f, z} \<and> ?C z"
        then obtain z where z: "z \<noteq> ?f" "?S = {?f, z}" "?C z" by blast
        from uniq[OF z(1) z(2)] z(3) no show False by simp
      qed
      then show ?thesis using r by simp
    qed
  next
    case False
    then have res: "disambiguation_level t pos m NOTATION_XIANGQI_WXF = Some FILE_DISAMBIGUATION"
      using nodrop us[symmetric] pt[symmetric]
      by (simp add: disambiguation_level_def popcount_def Let_def)
    have "\<not> (\<exists>z. z \<noteq> ?f \<and> ?S = {?f, z}
                \<and> is_ok t (z + to_sq m - ?f) \<and> z + to_sq m - ?f \<in> board_bb pos us pt)"
    proof
      assume "\<exists>z. z \<noteq> ?f \<and> ?S = {?f, z}
                \<and> is_ok t (z + to_sq m - ?f) \<and> z + to_sq m - ?f \<in> board_bb pos us pt"
      then obtain z where z: "z \<noteq> ?f" "?S = {?f, z}" by blast
      then have "card ?S = 2" by simp
      with False show False by simp
    qed
    then show ?thesis using res by simp
  qed
qed

theorem disambiguation_level_xiangqi_witness:
  "disambiguation_level example_types xiangqi_position (make_move 0 1) NOTATION_XIANGQI_WXF
     = Some RANK_DISAMBIGUATION"
proof -
  have h1: "move_type (make_move 0 1) \<noteq> DROP" by code_simp
  have h2: "WHITE = side_to_move xiangqi_position" by code_simp
  have h3: "4 = type_of example_types (moved_piece xiangqi_position (make_move 0 1))" by code_simp
  have h4: "from_sq (make_move 0 1) \<in> pieces_c_pt xiangqi_position WHITE 4" by code_simp
  have h5: "from_sq (make_move 0 1) \<in> file_bb example_types (from_sq (make_move 0 1))"
    by code_simp
  have c: "24 \<noteq> from_sq (make_move 0 1)
       \<and> pieces_c_pt xiangqi_position WHITE 4 \<inter> file_bb example_types (from_sq (make_move 0 1))
           = {from_sq (make_move 0 1), 24}
       \<and> is_ok example_types (24 + to_sq (make_move 0 1) - from_sq (make_move 0 1))
       \<and> 24 + to_sq (make_move 0 1) - from_sq (make_move 0 1)
           \<in> board_bb xiangqi_position WHITE 4"
    by code_simp
  show ?thesis
    using disambiguation_level_xiangqi[OF h1 h2 h3 h4 h5, THEN conjunct1] c by blast
qed

text \<open>
  C2, as the claim words it, counts two pieces besides the mover. In the Xiangqi
  position with rooks on a1 and a3 the rook move a1-b1 has one piece of its type and colour
  besides the mover on the origin file, and the result is \<open>RANK_DISAMBIGUATION\<close>.
\<close>

theorem disambiguation_level_xiangqi_one_other:
  "move_type (make_move 0 1) \<noteq> DROP
   \<and> card ((pieces_c_pt xiangqi_position (side_to_move xiangqi_position)
             (type_of example_types (moved_piece xiangqi_position (make_move 0 1)))
           \<inter> file_bb example_types (from_sq (make_move 0 1))) - {from_sq (make_move 0 1)}) = 1
   \<and> disambiguation_level example_types xiangqi_position (make_move 0 1) NOTATION_XIANGQI_WXF
       = Some RANK_DISAMBIGUATION"
  by code_simp

text \<open>
  C1, as the code has it. When the move gives check, the notation is no Shogi notation
  and counting the legal replies returns, \<open>move_to_san\<close> appends \<open>+\<close> to the text if
  there is a reply and \<open>#\<close> if there is none, and the position it leaves is the one that
  \<open>undo_move\<close> returns for the position that \<open>do_move\<close> produced: the position before the
  call, whenever \<open>undo_move\<close> takes back \<open>do_move\<close>.
\<close>

theorem move_to_san_check_suffix:
  assumes "move_to_san_text t (view e p) m n = Some san"
    and "gives_check (view e p) m"
    and "\<not> is_shogi n"
    and "MoveList_LEGAL_size e (do_move e p m) = Some replies"
  shows "fst (move_to_san t e p m n) = San (san @ (if replies \<noteq> 0 then ''+'' else ''#''))
         \<and> snd (move_to_san t e p m n) = undo_move e (do_move e p m) m
         \<and> (undo_move e (do_move e p m) m = p \<longrightarrow> snd (move_to_san t e p m n) = p)"
  using assms by (simp add: move_to_san_def Let_def)

theorem move_to_san_check_suffix_witness:
  "move_to_san example_types mating_engine 0 (make_move 0 84) NOTATION_SAN = (San ''Ra8#'', 0)"
proof -
  have h1: "move_to_san_text example_types (view mating_engine 0) (make_move 0 84) NOTATION_SAN
              = Some ''Ra8''" by code_simp
  have h2: "gives_check (view mating_engine 0) (make_move 0 84)" by code_simp
  have h3: "\<not> is_shogi NOTATION_SAN" by code_simp
  have h4: "MoveList_LEGAL_size mating_engine (do_move mating_engine 0 (make_move 0 84)) = Some 0"
    by code_simp
  have h5: "undo_move mating_engine (do_move mating_engine 0 (make_move 0 84)) (make_move 0 84) = 0"
    by code_simp
  from move_to_san_check_suffix[OF h1 h2 h3 h4] h5
  have "fst (move_to_san example_types mating_engine 0 (make_move 0 84) NOTATION_SAN) = San ''Ra8#''"
    and "snd (move_to_san example_types mating_engine 0 (make_move 0 84) NOTATION_SAN) = 0"
    by simp_all
  then show ?thesis by (metis prod.collapse)
qed

text \<open>
  C1, as the claim words it, has the revert run on an abnormal exit of the counting step
  too. The three statements follow each other without a guard: with an engine whose
  \<open>undo_move\<close> takes back \<open>do_move\<close> and whose move list construction throws, the call
  ends with the exception and leaves the position with the move applied.
\<close>

theorem move_to_san_no_revert_on_throw:
  "gives_check (view throwing_engine 0) (make_move 0 84)
   \<and> \<not> is_shogi NOTATION_SAN
   \<and> undo_move throwing_engine (do_move throwing_engine 0 (make_move 0 84)) (make_move 0 84) = 0
   \<and> MoveList_LEGAL_size throwing_engine (do_move throwing_engine 0 (make_move 0 84)) = None
   \<and> move_to_san example_types throwing_engine 0 (make_move 0 84) NOTATION_SAN = (Thrown, 1)"
  by code_simp

end
